theory Spec2Isabelle
  imports Complex_Main "HOL-Library.Sublist"
begin

section \<open>Connection actor (services/apiService.ts, class WebSocketService)\<close>

text \<open>
  The fields of \<^verbatim>\<open>WebSocketService\<close> that the reconnect and close paths read or write.
  \<^item> \<open>socket\<close> is \<^verbatim>\<open>this.socket\<close>: \<open>None\<close> for \<^verbatim>\<open>null\<close>, otherwise the
    \<^verbatim>\<open>readyState\<close> of the transport;
  \<^item> \<open>reconnectTimeout\<close> is the timer handle: \<open>None\<close> for \<^verbatim>\<open>null\<close>, otherwise the
    delay in milliseconds with which \<^verbatim>\<open>setTimeout\<close> was armed;
  \<^item> \<open>deferred\<close> collects the close events that \<^verbatim>\<open>handleClose\<close> re-posts to itself
    with \<^verbatim>\<open>setTimeout(..., 100)\<close> (\<open>None\<close> is a missing event object), and
    \<open>deferred_errors\<close> counts the error events that \<^verbatim>\<open>handleError\<close> re-posts in the
    same way;
  \<^item> \<open>st_error\<close>, \<open>st_connected\<close>, \<open>st_isLoading\<close> are the fields of the news store
    that the service writes through \<^verbatim>\<open>setError\<close>, \<^verbatim>\<open>setTreeConnected\<close> /
    \<^verbatim>\<open>setPhoenixConnected\<close> and \<^verbatim>\<open>setIsLoading\<close>.
  Delays are \<^verbatim>\<open>number\<close>s in the source. Every delay the code computes is
  \<open>1000 * 3^k / 2^k\<close> with \<open>k \<le> 9\<close>, a dyadic rational that a double holds exactly,
  so they are modelled as reals.
\<close>

datatype readyState = CONNECTING | OPEN | CLOSING | CLOSED

datatype sourceType = tree_source | phoenix_source

record closeEvent =
  code :: nat
  reason :: "string option"

record WebSocketService =
  sourceType :: sourceType
  socket :: "readyState option"
  reconnectTimeout :: "real option"
  ws_url :: string
  authToken :: "string option"
  isConnecting :: bool
  reconnectAttempts :: nat
  isCleaned :: bool
  isHandlingErrorOrClose :: bool
  isCleanDisconnect :: bool
  deferred :: "closeEvent option list"
  deferred_errors :: nat
  st_error :: "string option"
  st_connected :: bool
  st_isLoading :: bool

definition maxReconnectAttempts :: nat where
  "maxReconnectAttempts = 10"

text \<open>
  \<^verbatim>\<open>Math.min(1000 * Math.pow(1.5, this.reconnectAttempts - 1), 60000)\<close>, for the value
  \<open>n\<close> of the counter after it was incremented and capped (so \<open>n \<ge> 1\<close>).
\<close>

definition backoff_delay :: "nat \<Rightarrow> real" where
  "backoff_delay n = min (1000 * (3 / 2) ^ (n - 1)) 60000"

text \<open>
  \<^verbatim>\<open>scheduleReconnect\<close>: nothing happens while a timer is pending or no URL is set;
  otherwise the counter is incremented, capped at \<^verbatim>\<open>maxReconnectAttempts\<close>, and the
  timer is armed with the backoff delay.
\<close>

definition scheduleReconnect :: "WebSocketService \<Rightarrow> WebSocketService" where
  "scheduleReconnect s =
     (if reconnectTimeout s = None \<and> ws_url s \<noteq> [] then
        let n = reconnectAttempts s + 1;
            n' = (if n > maxReconnectAttempts then maxReconnectAttempts else n)
        in s\<lparr>reconnectAttempts := n', reconnectTimeout := Some (backoff_delay n')\<rparr>
      else s)"

text \<open>\<^verbatim>\<open>isConnected()\<close>: a socket exists and its \<^verbatim>\<open>readyState\<close> is \<^verbatim>\<open>OPEN\<close>.\<close>

definition isConnected :: "WebSocketService \<Rightarrow> bool" where
  "isConnected s = (socket s = Some OPEN)"

definition sourceType_name :: "sourceType \<Rightarrow> string" where
  "sourceType_name t = (case t of tree_source \<Rightarrow> ''tree'' | phoenix_source \<Rightarrow> ''phoenix'')"

text \<open>
  \<^verbatim>\<open>connect(url, token)\<close>. The first argument says what \<^verbatim>\<open>new WebSocket(url)\<close> does:
  \<open>None\<close> when it returns a transport, \<open>Some msg\<close> when it throws, \<open>msg\<close> being the
  text that \<^verbatim>\<open>getReadableErrorMessage\<close> gives for the error. The \<^verbatim>\<open>try\<close> block sets
  the loading flag, clears the error, arms the 15 s guard, closes an existing socket and
  creates the transport; the \<^verbatim>\<open>catch\<close> block clears \<^verbatim>\<open>isConnecting\<close>, publishes the
  failure and calls \<^verbatim>\<open>scheduleReconnect\<close>.
\<close>

definition connect ::
  "string option \<Rightarrow> string \<Rightarrow> string option \<Rightarrow> WebSocketService \<Rightarrow> WebSocketService" where
  "connect ctor_error url token s =
     (if isCleaned s then s
      else if isConnecting s then s
      else if socket s \<noteq> None \<and> isConnected s then s
      else
        let s1 = s\<lparr>ws_url := url, authToken := token, isConnecting := True\<rparr>;
            s2 = s1\<lparr>st_isLoading := True, st_error := None\<rparr>;
            s3 = s2\<lparr>socket := None\<rparr>
        in (case ctor_error of
              None \<Rightarrow> s3\<lparr>socket := Some CONNECTING\<rparr>
            | Some msg \<Rightarrow>
                scheduleReconnect
                  (s3\<lparr>isConnecting := False,
                      st_error := Some (''['' @ sourceType_name (sourceType s3)
                          @ ''] Failed to connect: '' @ msg),
                      st_connected := False,
                      st_isLoading := False\<rparr>)))"

text \<open>
  The callback of the reconnect timer, in the order of the source:
  \<^verbatim>\<open>this.connect(this.url, this.authToken); this.reconnectTimeout = null;\<close>.
  While \<^verbatim>\<open>connect\<close> runs, the handle of the timer that is firing is still set.
\<close>

definition reconnect_timer_callback :: "string option \<Rightarrow> WebSocketService \<Rightarrow> WebSocketService" where
  "reconnect_timer_callback ctor_error s =
     (connect ctor_error (ws_url s) (authToken s) s)\<lparr>reconnectTimeout := None\<rparr>"

text \<open>
  The callback of the 15 s guard that \<^verbatim>\<open>connect\<close> arms: it acts only while
  \<^verbatim>\<open>isConnecting\<close> is still set.
\<close>

definition connectionTimeout_fired :: "WebSocketService \<Rightarrow> WebSocketService" where
  "connectionTimeout_fired s =
     (if isConnecting s
      then scheduleReconnect
             (s\<lparr>st_error := Some (''['' @ sourceType_name (sourceType s)
                       @ ''] Connection timeout - server not responding''),
                st_connected := False,
                isConnecting := False\<rparr>)
      else s)"

text \<open>
  \<^verbatim>\<open>handleError\<close>. A cleaned-up service ignores the event; while another error or close
  handler runs, the event is posted again for 100 ms later; otherwise the handler
  publishes the error, clears \<^verbatim>\<open>isConnecting\<close> and calls \<^verbatim>\<open>scheduleReconnect\<close>.
\<close>

definition handleError :: "WebSocketService \<Rightarrow> WebSocketService" where
  "handleError s =
     (if isCleaned s then s
      else if isHandlingErrorOrClose s then s\<lparr>deferred_errors := deferred_errors s + 1\<rparr>
      else
        let s1 = s\<lparr>isHandlingErrorOrClose := True\<rparr>;
            s2 = s1\<lparr>st_error := Some (''['' @ sourceType_name (sourceType s1) @ ''] WebSocket error''),
                    st_connected := False,
                    isConnecting := False\<rparr>;
            s3 = scheduleReconnect s2
        in s3\<lparr>isHandlingErrorOrClose := False\<rparr>)"

text \<open>
  The delays armed by \<open>k\<close> consecutive failures of the transport: an error event arrives
  and \<^verbatim>\<open>handleError\<close> schedules the reconnect; the timer fires and its callback opens a
  new transport, which fails in turn. A failure arms a delay when no timer was pending
  before it and one is pending after it.
\<close>

definition newly_armed :: "WebSocketService \<Rightarrow> WebSocketService \<Rightarrow> real list" where
  "newly_armed s s' =
     (if reconnectTimeout s = None
      then (case reconnectTimeout s' of None \<Rightarrow> [] | Some d \<Rightarrow> [d])
      else [])"

fun reconnect_delays :: "nat \<Rightarrow> WebSocketService \<Rightarrow> real list" where
  "reconnect_delays 0 s = []"
| "reconnect_delays (Suc k) s =
     newly_armed s (handleError s)
       @ reconnect_delays k (reconnect_timer_callback None (handleError s))"

definition fresh_service :: "string \<Rightarrow> WebSocketService" where
  "fresh_service u =
     \<lparr>sourceType = tree_source, socket = None, reconnectTimeout = None, ws_url = u,
      authToken = None, isConnecting = False, reconnectAttempts = 0, isCleaned = False,
      isHandlingErrorOrClose = False, isCleanDisconnect = False, deferred = [],
      deferred_errors = 0, st_error = None, st_connected = False, st_isLoading = False\<rparr>"

text \<open>
  A transport whose constructor throws: the first \<^verbatim>\<open>connect\<close> of a fresh service, and
  the state after the reconnect timer that it armed has fired.
\<close>

definition insecure :: string where
  "insecure = ''The operation is insecure.''"

definition first_connect_throws :: "string \<Rightarrow> WebSocketService" where
  "first_connect_throws u = connect (Some insecure) u None (fresh_service u)"

definition retry_throws :: "string \<Rightarrow> WebSocketService" where
  "retry_throws u = reconnect_timer_callback (Some insecure) (first_connect_throws u)"

subsection \<open>Close handling (\<^verbatim>\<open>handleClose\<close>)\<close>






section \<open>Canonical event model (types/news)\<close>

text \<open>
  JavaScript strings are modelled as \<^typ>\<open>string\<close>. The case mappings are those of the
  ASCII letters; the model does not cover the Unicode case mappings of characters outside
  ASCII. An optional field (\<^verbatim>\<open>field?: T\<close>) is an \<^typ>\<open>'a option\<close>, \<open>None\<close> standing for
  \<^verbatim>\<open>undefined\<close>. \<^verbatim>\<open>time\<close> is an integer number of milliseconds.
\<close>

datatype NewsSource = tree | phoenix

record SymbolInfo =
  exchange :: string
  symbol :: string

record Suggestion =
  coin :: string
  found :: "string list"
  symbols :: "SymbolInfo list"

record QuotedUser =
  q_name :: "string option"
  screen_name :: "string option"
  q_icon :: "string option"
  q_text :: "string option"
  q_image :: "string option"

record TwitterInfo =
  twitterId :: "string option"
  isReply :: "bool option"
  isRetweet :: "bool option"
  isQuote :: "bool option"
  isSelfReply :: "bool option"
  username :: "string option"
  t_name :: "string option"
  quotedUser :: "QuotedUser option"

record NewsItem =
  item_id :: string
  title :: string
  body :: "string option"
  source :: string
  url :: "string option"
  time :: int
  suggestions :: "Suggestion list option"
  icon :: "string option"
  image_url :: "string option"
  info :: "TwitterInfo option"
  isHighlighted :: "bool option"
  requireInteraction :: "bool option"
  coin_of :: "string option"
  matchedKeyword :: "string option"
  newsSource :: "NewsSource option"

record FilterKeyword =
  kw_id :: string
  keyword :: string

subsection \<open>String primitives\<close>

definition toLowerCase_char :: "char \<Rightarrow> char" where
  "toLowerCase_char c =
     (let n = (of_char c :: nat) in if 65 \<le> n \<and> n \<le> 90 then char_of (n + 32) else c)"

definition toUpperCase_char :: "char \<Rightarrow> char" where
  "toUpperCase_char c =
     (let n = (of_char c :: nat) in if 97 \<le> n \<and> n \<le> 122 then char_of (n - 32) else c)"

definition toLowerCase :: "string \<Rightarrow> string" where
  "toLowerCase s = map toLowerCase_char s"

definition toUpperCase :: "string \<Rightarrow> string" where
  "toUpperCase s = map toUpperCase_char s"

text \<open>\<^verbatim>\<open>t.includes(k)\<close>: \<open>k\<close> occurs in \<open>t\<close> as a contiguous substring.\<close>

fun str_includes :: "string \<Rightarrow> string \<Rightarrow> bool" where
  "str_includes [] k = (k = [])"
| "str_includes (c # cs) k = (prefix k (c # cs) \<or> str_includes cs k)"

text \<open>Truthiness of an optional string: \<^verbatim>\<open>undefined\<close>, \<^verbatim>\<open>null\<close> and \<^verbatim>\<open>''\<close> are falsy.\<close>

fun truthy :: "string option \<Rightarrow> bool" where
  "truthy None = False"
| "truthy (Some s) = (s \<noteq> [])"

text \<open>Decimal rendering of a non-negative integer, as in a template string.\<close>

fun digits :: "nat \<Rightarrow> string" where
  "digits n = (if n < 10 then [char_of (48 + n)] else digits (n div 10) @ [char_of (48 + n mod 10)])"

declare digits.simps [simp del]

section \<open>Keyword matcher (notificationService.checkForKeywordMatch, apiService.findMatchedKeyword)\<close>

text \<open>
  The \<^verbatim>\<open>for (const filter of filterKeywords)\<close> loop of both functions: the first filter
  whose keyword occurs in the lower-cased title or body is returned. The keyword itself
  is used as stored.
\<close>

fun keyword_loop :: "string \<Rightarrow> string \<Rightarrow> FilterKeyword list \<Rightarrow> string option" where
  "keyword_loop titleLower bodyLower [] = None"
| "keyword_loop titleLower bodyLower (f # fs) =
     (if str_includes titleLower (keyword f) \<or> str_includes bodyLower (keyword f)
      then Some (keyword f)
      else keyword_loop titleLower bodyLower fs)"

text \<open>
  \<^verbatim>\<open>checkForKeywordMatch\<close> returns \<^verbatim>\<open>null\<close> for no match, \<^verbatim>\<open>findMatchedKeyword\<close>
  returns \<^verbatim>\<open>undefined\<close>; both are \<open>None\<close> here. \<^verbatim>\<open>newsItem.body?.toLowerCase() || ''\<close> is
  the empty string for a missing body.
\<close>

definition checkForKeywordMatch :: "'a NewsItem_scheme \<Rightarrow> FilterKeyword list \<Rightarrow> string option" where
  "checkForKeywordMatch newsItem filterKeywords =
     (if length filterKeywords = 0 then None
      else let titleLower = toLowerCase (title newsItem);
               bodyLower = (case body newsItem of None \<Rightarrow> [] | Some b \<Rightarrow> toLowerCase b)
           in keyword_loop titleLower bodyLower filterKeywords)"

definition findMatchedKeyword :: "'a NewsItem_scheme \<Rightarrow> FilterKeyword list \<Rightarrow> string option" where
  "findMatchedKeyword newsItem filterKeywords =
     (if length filterKeywords = 0 then None
      else let titleLower = toLowerCase (title newsItem);
               bodyLower = (case body newsItem of None \<Rightarrow> [] | Some b \<Rightarrow> toLowerCase b)
           in keyword_loop titleLower bodyLower filterKeywords)"

text \<open>
  The matcher as the specification words it: a case-insensitive substring search of each
  keyword over title and body, the first matching keyword in list order winning.
\<close>

definition ci_substring :: "string \<Rightarrow> string \<Rightarrow> bool" where
  "ci_substring k t = str_includes (toLowerCase t) (toLowerCase k)"

definition spec_findMatch :: "'a NewsItem_scheme \<Rightarrow> FilterKeyword list \<Rightarrow> string option" where
  "spec_findMatch newsItem filterKeywords =
     map_option keyword
       (find (\<lambda>f. ci_substring (keyword f) (title newsItem)
                 \<or> ci_substring (keyword f) (case body newsItem of None \<Rightarrow> [] | Some b \<Rightarrow> b))
          filterKeywords)"

text \<open>Keywords as \<^verbatim>\<open>addFilterKeyword\<close> stores them: lower-cased.\<close>

definition lowercase_keywords :: "FilterKeyword list \<Rightarrow> bool" where
  "lowercase_keywords fs = list_all (\<lambda>f. toLowerCase (keyword f) = keyword f) fs"

section \<open>Reconciled store (store/newsStore, addNews)\<close>

text \<open>
  The data fields of the store. \<^verbatim>\<open>serverConfig\<close> and the action functions, which
  \<^verbatim>\<open>addNews\<close> neither reads nor writes, are left out.
\<close>

record NewsState =
  news :: "NewsItem list"
  isLoading :: bool
  error :: "string option"
  treeConnected :: bool
  phoenixConnected :: bool
  filterKeywords :: "FilterKeyword list"
  showTwitterPosts :: bool
  disableApiRequests :: bool

text \<open>
  What \<^verbatim>\<open>addNews\<close> reads from outside: \<^verbatim>\<open>Date.now()\<close> and the suffix
  \<^verbatim>\<open>Math.random().toString(36).substring(2, 9)\<close> of a generated id.
\<close>

record env =
  now :: nat
  rnd :: string

definition generated_id :: "env \<Rightarrow> string" where
  "generated_id e = ''generated-'' @ digits (now e) @ ''-'' @ rnd e"

text \<open>
  \<^verbatim>\<open>source === 'X' || source === 'Twitter' || (info?.twitterId && title?.includes('@'))\<close>
\<close>

definition isTwitterOrXPost :: "NewsItem \<Rightarrow> bool" where
  "isTwitterOrXPost newsItem =
     (source newsItem = ''X'' \<or> source newsItem = ''Twitter'' \<or>
      ((case info newsItem of None \<Rightarrow> False | Some i \<Rightarrow> truthy (twitterId i))
        \<and> str_includes (title newsItem) ''@''))"

text \<open>The duplicate test of \<^verbatim>\<open>state.news.some(item => ...)\<close> for one stored item.\<close>

definition same_key :: "NewsItem \<Rightarrow> NewsItem \<Rightarrow> bool" where
  "same_key item newsItem =
     (item_id item = item_id newsItem \<or>
      (truthy (url item) \<and> truthy (url newsItem) \<and> url item = url newsItem) \<or>
      (title item \<noteq> [] \<and> title newsItem \<noteq> [] \<and> title item = title newsItem))"

text \<open>
  The two defaulting steps of \<^verbatim>\<open>addNews\<close>: a generated id for an empty
  \<^verbatim>\<open>_id\<close>, and \<^verbatim>\<open>'tree'\<close> for a missing \<^verbatim>\<open>newsSource\<close>. (The source writes both
  into the argument object, which is not part of the store.)
\<close>

definition with_defaults :: "env \<Rightarrow> NewsItem \<Rightarrow> NewsItem" where
  "with_defaults e newsItem =
     (let n1 = (if item_id newsItem = [] then newsItem\<lparr>item_id := generated_id e\<rparr> else newsItem)
      in if newsSource n1 = None then n1\<lparr>newsSource := Some tree\<rparr> else n1)"

text \<open>
  The code's \<^verbatim>\<open>isHighlighted\<close> expression and the \<^verbatim>\<open>enhancedNewsItem\<close>:
  \<^verbatim>\<open>isHighlighted: isHighlighted || newsItem.isHighlighted\<close> and
  \<^verbatim>\<open>matchedKeyword: (newsItem.matchedKeyword || newMatchedKeyword) || undefined\<close>.
\<close>

definition computed_highlight :: "NewsItem \<Rightarrow> string option \<Rightarrow> bool" where
  "computed_highlight newsItem newMatchedKeyword =
     (toUpperCase (title newsItem) = title newsItem \<or>
      source newsItem = ''Terminal'' \<or>
      (case suggestions newsItem of None \<Rightarrow> False
       | Some ss \<Rightarrow> list_ex (\<lambda>s. coin s = ''BTC'' \<or> coin s = ''ETH'') ss) \<or>
      newMatchedKeyword \<noteq> None)"

definition enhancedNewsItem :: "NewsItem \<Rightarrow> string option \<Rightarrow> NewsItem" where
  "enhancedNewsItem newsItem newMatchedKeyword =
     (let matched = (if truthy (matchedKeyword newsItem) then matchedKeyword newsItem
                     else newMatchedKeyword)
      in newsItem\<lparr>
           isHighlighted :=
             (if computed_highlight newsItem newMatchedKeyword then Some True
              else isHighlighted newsItem),
           matchedKeyword := (if truthy matched then matched else None)\<rparr>)"

text \<open>
  \<^verbatim>\<open>addNews\<close>. The result is the new state together with the calls of
  \<^verbatim>\<open>notificationService.scheduleNotification(enhancedNewsItem, newMatchedKeyword)\<close> it
  makes. \<^verbatim>\<open>Array.prototype.sort\<close> is stable, so sorting with the comparator
  \<^verbatim>\<open>(a, b) => b.time - a.time\<close> is the stable sort by descending \<^verbatim>\<open>time\<close>;
  \<^verbatim>\<open>slice(0, 100)\<close> keeps the first 100 entries.
\<close>

definition addNews :: "env \<Rightarrow> NewsItem \<Rightarrow> NewsState \<Rightarrow> NewsState \<times> (NewsItem \<times> string) list" where
  "addNews e rawItem state =
     (if disableApiRequests state \<and> source rawItem = ''api'' then (state, [])
      else
        let newsItem = with_defaults e rawItem in
        if \<not> showTwitterPosts state \<and> isTwitterOrXPost newsItem then (state, [])
        else if list_ex (\<lambda>item. same_key item newsItem) (news state) then (state, [])
        else
          let newMatchedKeyword = checkForKeywordMatch newsItem (filterKeywords state);
              enhanced = enhancedNewsItem newsItem newMatchedKeyword;
              notifications =
                (case newMatchedKeyword of
                   None \<Rightarrow> []
                 | Some k \<Rightarrow>
                     if k \<noteq> [] \<and> (\<not> truthy (matchedKeyword newsItem)
                                    \<or> matchedKeyword newsItem \<noteq> Some k)
                     then [(enhanced, k)] else [])
          in (state\<lparr>news := take 100 (sort_key (\<lambda>x. - time x) (enhanced # news state))\<rparr>,
              notifications))"

text \<open>A sequence of insertions, each with its own clock and random suffix.\<close>

fun addNews_seq :: "(env \<times> NewsItem) list \<Rightarrow> NewsState \<Rightarrow> NewsState" where
  "addNews_seq [] state = state"
| "addNews_seq ((e, x) # rest) state = addNews_seq rest (fst (addNews e x state))"

text \<open>
  The dedup invariant: no two entries at different positions share an \<^verbatim>\<open>_id\<close>, a
  non-empty \<^verbatim>\<open>url\<close> or a non-empty \<^verbatim>\<open>title\<close>.
\<close>

fun dedup_inv :: "NewsItem list \<Rightarrow> bool" where
  "dedup_inv [] = True"
| "dedup_inv (x # xs) = (\<not> list_ex (same_key x) xs \<and> dedup_inv xs)"

text \<open>
  The highlight rule as the specification words it: the title is fully upper case, or the
  source is the priority source, or a tag names BTC or ETH, or a keyword matched.
\<close>

definition spec_highlighted :: "NewsItem \<Rightarrow> FilterKeyword list \<Rightarrow> bool" where
  "spec_highlighted newsItem fs =
     (list_all (\<lambda>c. toUpperCase_char c = c) (title newsItem) \<or>
      source newsItem = ''Terminal'' \<or>
      (\<exists>s \<in> set (case suggestions newsItem of None \<Rightarrow> [] | Some ss \<Rightarrow> ss).
          coin s = ''BTC'' \<or> coin s = ''ETH'') \<or>
      checkForKeywordMatch newsItem fs \<noteq> None)"

text \<open>
  The enhanced event as the specification words it: the highlight flag is the rule's
  result, the matched keyword is the matcher's result.
\<close>

definition claimed_enhanced :: "NewsItem \<Rightarrow> FilterKeyword list \<Rightarrow> NewsItem" where
  "claimed_enhanced newsItem fs =
     newsItem\<lparr>isHighlighted := Some (spec_highlighted newsItem fs),
              matchedKeyword := checkForKeywordMatch newsItem fs\<rparr>"

definition empty_store :: "NewsState" where
  "empty_store =
     \<lparr>news = [], isLoading = False, error = None, treeConnected = False,
      phoenixConnected = False, filterKeywords = [], showTwitterPosts = True,
      disableApiRequests = False\<rparr>"

text \<open>
  The enhanced event of the specification, amended by the two rules of the code that keep
  what the incoming event already carries: an incoming \<^verbatim>\<open>isHighlighted\<close> flag survives when the highlight rule
  does not fire, and a non-empty incoming \<^verbatim>\<open>matchedKeyword\<close> takes precedence over
  the matcher's result.
\<close>

definition spec_enhanced :: "NewsItem \<Rightarrow> FilterKeyword list \<Rightarrow> NewsItem" where
  "spec_enhanced newsItem fs =
     newsItem\<lparr>
       isHighlighted :=
         (if spec_highlighted newsItem fs then Some True else isHighlighted newsItem),
       matchedKeyword :=
         (if truthy (matchedKeyword newsItem) then matchedKeyword newsItem
          else if truthy (checkForKeywordMatch newsItem fs)
               then checkForKeywordMatch newsItem fs else None)\<rparr>"

text \<open>
  The early returns of \<^verbatim>\<open>addNews\<close>: the API filter, the Twitter/X filter and the
  duplicate test, in this order.
\<close>

definition dropped :: "env \<Rightarrow> NewsItem \<Rightarrow> NewsState \<Rightarrow> bool" where
  "dropped e x state =
     ((disableApiRequests state \<and> source x = ''api'') \<or>
      (\<not> showTwitterPosts state \<and> isTwitterOrXPost (with_defaults e x)) \<or>
      list_ex (\<lambda>item. same_key item (with_defaults e x)) (news state))"

text \<open>Example data: an event with the given id, title and time, and a store of \<open>n\<close> events.\<close>

definition plain_item :: "string \<Rightarrow> string \<Rightarrow> int \<Rightarrow> NewsItem" where
  "plain_item i t ms =
     \<lparr>item_id = i, title = t, body = None, source = ''News'', url = None, time = ms,
      suggestions = None, icon = None, image_url = None, info = None, isHighlighted = None,
      requireInteraction = None, coin_of = None, matchedKeyword = None,
      newsSource = Some tree\<rparr>"

definition store_of :: "nat \<Rightarrow> NewsState" where
  "store_of n = empty_store\<lparr>news := map (\<lambda>k. plain_item (digits k) [] (int k)) (rev [0..<n])\<rparr>"


section \<open>Notification dispatcher (services/notificationService, class NotificationService)\<close>

text \<open>
  The service state that \<^verbatim>\<open>scheduleNotification\<close> reads and writes.
  \<^item> \<open>recentNotifications\<close> is the \<^verbatim>\<open>Set<string>\<close> of recently dispatched ids, kept as
    a duplicate-free list in insertion order;
  \<^item> \<open>expiry_timers\<close> holds, for every pending
    \<^verbatim>\<open>setTimeout(() => recentNotifications.delete(id), NOTIFICATION_DEDUPE_WINDOW)\<close>, the
    time at which it is due and the id it deletes;
  \<^item> \<open>sink_calls\<close> logs the calls that reach the platform sink, in order:
    \<^verbatim>\<open>new Notification(title, options)\<close> on the web and
    \<^verbatim>\<open>Notifications.scheduleNotificationAsync(...)\<close> on a mobile platform, whether the
    call returns or throws;
  \<^item> \<open>retry_timers\<close> holds, for every pending retry that \<^verbatim>\<open>showMobileNotification\<close>
    armed, the time at which it is due, the dispatch and the retry count it passes on;
  \<^item> \<open>webNotificationsSupported\<close> and \<open>webNotificationsPermission\<close> are the fields of
    these names, which \<^verbatim>\<open>_doInitialize\<close> sets on the web and \<^verbatim>\<open>showWebNotification\<close>
    reads;
  \<^item> \<open>platform\<close> is \<^verbatim>\<open>Platform.OS\<close>.
\<close>

datatype os = web | ios | android

record notificationStats =
  success :: nat
  failed :: nat
  retried :: nat
  skipped :: nat

record dispatch =
  d_title :: string
  d_body :: string
  d_item :: NewsItem

record NotificationService =
  platform :: os
  isInitialized :: bool
  webNotificationsSupported :: bool
  webNotificationsPermission :: string
  recentNotifications :: "string list"
  notificationStats :: notificationStats
  expiry_timers :: "(nat \<times> string) list"
  retry_timers :: "(nat \<times> dispatch \<times> nat) list"
  sink_calls :: "dispatch list"

definition NOTIFICATION_DEDUPE_WINDOW :: nat where
  "NOTIFICATION_DEDUPE_WINDOW = 60000"

text \<open>
  What one call of \<^verbatim>\<open>scheduleNotification\<close> reads from outside: the clock; whether
  \<^verbatim>\<open>await this.initialize()\<close> leaves the service initialised (on the web: whether
  \<^verbatim>\<open>'Notification' in window\<close>); the permission that the web \<^verbatim>\<open>_doInitialize\<close>
  stores in \<^verbatim>\<open>webNotificationsPermission\<close> (\<^verbatim>\<open>Notification.permission\<close>, or what
  \<^verbatim>\<open>requestPermission()\<close> resolved to); the status that
  \<^verbatim>\<open>await this.getPermissionStatus()\<close> resolves to; and whether the call to the
  platform sink throws.
\<close>

record call_env =
  clock :: nat
  initialize_succeeds :: bool
  initPermission :: string
  permissionStatus :: string
  sink_throws :: bool

definition skip :: "NotificationService \<Rightarrow> NotificationService" where
  "skip s = s\<lparr>notificationStats := (notificationStats s)\<lparr>skipped := skipped (notificationStats s) + 1\<rparr>\<rparr>"

definition count_success :: "NotificationService \<Rightarrow> NotificationService" where
  "count_success s =
     s\<lparr>notificationStats := (notificationStats s)\<lparr>success := success (notificationStats s) + 1\<rparr>\<rparr>"

definition count_failed :: "NotificationService \<Rightarrow> NotificationService" where
  "count_failed s =
     s\<lparr>notificationStats := (notificationStats s)\<lparr>failed := failed (notificationStats s) + 1\<rparr>\<rparr>"

definition count_retried :: "NotificationService \<Rightarrow> NotificationService" where
  "count_retried s =
     s\<lparr>notificationStats := (notificationStats s)\<lparr>retried := retried (notificationStats s) + 1\<rparr>\<rparr>"

text \<open>
  \<^verbatim>\<open>cleanup()\<close> clears the dedup cache (besides removing listeners); the mobile
  \<^verbatim>\<open>_doInitialize\<close> calls it before it registers its listeners.
\<close>

definition cleanup :: "NotificationService \<Rightarrow> NotificationService" where
  "cleanup s = s\<lparr>recentNotifications := []\<rparr>"

definition initialize :: "call_env \<Rightarrow> NotificationService \<Rightarrow> NotificationService" where
  "initialize e s =
     (if isInitialized s then s
      else if \<not> initialize_succeeds e then s
      else if platform s = web
        then s\<lparr>webNotificationsSupported := True,
               webNotificationsPermission := initPermission e,
               isInitialized := True\<rparr>
      else (cleanup s)\<lparr>isInitialized := True\<rparr>)"

text \<open>
  The \<^verbatim>\<open>AppState\<close> listener that the constructor registers when the platform is not
  the web: going to \<^verbatim>\<open>background\<close> or \<^verbatim>\<open>inactive\<close> clears the dedup cache.
\<close>

definition appStateChanged :: "string \<Rightarrow> NotificationService \<Rightarrow> NotificationService" where
  "appStateChanged nextAppState s =
     (if platform s \<noteq> web \<and> (nextAppState = ''background'' \<or> nextAppState = ''inactive'')
      then s\<lparr>recentNotifications := []\<rparr> else s)"

text \<open>
  The timers that are due at time \<open>t\<close> fire: each deletes its id from the cache. (A
  JavaScript timer fires at its deadline or later; firing at the deadline gives the
  shortest suppression.)
\<close>

definition run_timers :: "nat \<Rightarrow> NotificationService \<Rightarrow> NotificationService" where
  "run_timers t s =
     s\<lparr>recentNotifications :=
         filter (\<lambda>i. i \<notin> snd ` set (filter (\<lambda>(d, _). d \<le> t) (expiry_timers s)))
           (recentNotifications s),
       expiry_timers := filter (\<lambda>(d, _). \<not> d \<le> t) (expiry_timers s)\<rparr>"

definition notificationId :: "NewsItem \<Rightarrow> string \<Rightarrow> string" where
  "notificationId newsItem matchedKeyword' = item_id newsItem @ ''-'' @ matchedKeyword'"

text \<open>
  The dispatch for an event and a keyword: the title
  \<^verbatim>\<open>`${newsItem.source}: ${matchedKeyword.toUpperCase()} Alert`\<close> and the body
  \<^verbatim>\<open>newsItem.title || 'New crypto alert'\<close>.
\<close>

definition dispatch_of :: "NewsItem \<Rightarrow> string \<Rightarrow> dispatch" where
  "dispatch_of newsItem matchedKeyword' =
     \<lparr>d_title = source newsItem @ '': '' @ toUpperCase matchedKeyword' @ '' Alert'',
      d_body = (if title newsItem \<noteq> [] then title newsItem else ''New crypto alert''),
      d_item = newsItem\<rparr>"

text \<open>
  \<^verbatim>\<open>showWebNotification\<close>: without browser support, or unless the permission cached in
  \<^verbatim>\<open>webNotificationsPermission\<close> is \<^verbatim>\<open>granted\<close>, the request is counted as skipped
  and nothing is sent; otherwise \<^verbatim>\<open>new Notification(title, options)\<close> is called and
  counted as a success, or as a failure when it throws (there is no retry on the web).
\<close>

definition showWebNotification ::
  "call_env \<Rightarrow> dispatch \<Rightarrow> NotificationService \<Rightarrow> NotificationService" where
  "showWebNotification e d s =
     (if \<not> webNotificationsSupported s \<or> webNotificationsPermission s \<noteq> ''granted'' then skip s
      else
        let s1 = s\<lparr>sink_calls := sink_calls s @ [d]\<rparr> in
        if sink_throws e then count_failed s1 else count_success s1)"

text \<open>
  \<^verbatim>\<open>showMobileNotification(title, body, newsItem, retryCount)\<close>:
  \<^verbatim>\<open>scheduleNotificationAsync\<close> is called and counted as a success; when it throws, the
  failure is counted (\<^verbatim>\<open>retried\<close> for a retry, \<^verbatim>\<open>failed\<close> for the first call) and,
  while \<^verbatim>\<open>retryCount < 2\<close>, a retry is armed for \<^verbatim>\<open>Math.pow(2, retryCount) * 1000\<close> ms
  later.
\<close>

definition showMobileNotification ::
  "call_env \<Rightarrow> dispatch \<Rightarrow> nat \<Rightarrow> NotificationService \<Rightarrow> NotificationService" where
  "showMobileNotification e d retryCount s =
     (let s1 = s\<lparr>sink_calls := sink_calls s @ [d]\<rparr> in
      if \<not> sink_throws e then count_success s1
      else
        let s2 = (if retryCount > 0 then count_retried s1 else count_failed s1) in
        if retryCount < 2
        then s2\<lparr>retry_timers :=
                  retry_timers s2 @ [(clock e + 2 ^ retryCount * 1000, d, retryCount + 1)]\<rparr>
        else s2)"

text \<open>
  \<^verbatim>\<open>scheduleNotification\<close>. The check of the cache and the insertion into it run
  without an \<^verbatim>\<open>await\<close> in between, so they are one step.
\<close>

definition scheduleNotification ::
  "call_env \<Rightarrow> NewsItem \<Rightarrow> string \<Rightarrow> NotificationService \<Rightarrow> NotificationService" where
  "scheduleNotification e newsItem matchedKeyword' s0 =
     (let s = (if \<not> isInitialized s0 then initialize e s0 else s0) in
      if \<not> isInitialized s then skip s
      else if permissionStatus e \<noteq> ''granted'' then skip s
      else
        let nid = notificationId newsItem matchedKeyword' in
        if nid \<in> set (recentNotifications s) then skip s
        else
          let s1 = s\<lparr>recentNotifications := recentNotifications s @ [nid],
                      expiry_timers :=
                        expiry_timers s @ [(clock e + NOTIFICATION_DEDUPE_WINDOW, nid)]\<rparr>
          in if platform s1 = web
             then showWebNotification e (dispatch_of newsItem matchedKeyword') s1
             else showMobileNotification e (dispatch_of newsItem matchedKeyword') 0 s1)"

text \<open>
  The callback of the earliest retry timer:
  \<^verbatim>\<open>this.showMobileNotification(title, body, newsItem, retryCount + 1)\<close>.
\<close>

definition retry_fired :: "call_env \<Rightarrow> NotificationService \<Rightarrow> NotificationService" where
  "retry_fired e s =
     (case retry_timers s of
        [] \<Rightarrow> s
      | (t, d, n) # rest \<Rightarrow> showMobileNotification e d n (s\<lparr>retry_timers := rest\<rparr>))"

text \<open>What happens to the service, in order of time.\<close>

datatype notify_event =
    Notify call_env NewsItem string
  | AppState string
  | Cleanup
  | Retry call_env

fun process :: "notify_event \<Rightarrow> NotificationService \<Rightarrow> NotificationService" where
  "process (Notify e x k) s = scheduleNotification e x k (run_timers (clock e) s)"
| "process (AppState a) s = appStateChanged a s"
| "process Cleanup s = cleanup s"
| "process (Retry e) s = retry_fired e s"

fun process_all :: "notify_event list \<Rightarrow> NotificationService \<Rightarrow> NotificationService" where
  "process_all [] s = s"
| "process_all (ev # evs) s = process_all evs (process ev s)"


text \<open>
  An initialised service with an empty cache; on the web, with browser support and the
  permission \<open>perm\<close> cached by the initialisation.
\<close>

definition ready_service :: "os \<Rightarrow> string \<Rightarrow> NotificationService" where
  "ready_service p perm =
     \<lparr>platform = p, isInitialized = True,
      webNotificationsSupported = (p = web),
      webNotificationsPermission = (if p = web then perm else ''default''),
      recentNotifications = [],
      notificationStats = \<lparr>success = 0, failed = 0, retried = 0, skipped = 0\<rparr>,
      expiry_timers = [], retry_timers = [], sink_calls = []\<rparr>"

definition granted_at :: "nat \<Rightarrow> call_env" where
  "granted_at t =
     \<lparr>clock = t, initialize_succeeds = True, initPermission = ''granted'',
      permissionStatus = ''granted'', sink_throws = False\<rparr>"




section \<open>Text normalizer (utils/textUtils)\<close>

text \<open>
  Text outside ASCII is carried as bytes and treated as opaque: the white space and the
  line terminators of the model are the ASCII ones. The en dash, the em dash, the bullet and
  the ellipsis that the source writes as characters are their UTF-8 bytes.
\<close>

definition is_space :: "char \<Rightarrow> bool" where
  "is_space c = (let n = (of_char c :: nat) in n = 32 \<or> (9 \<le> n \<and> n \<le> 13))"

definition is_line_terminator :: "char \<Rightarrow> bool" where
  "is_line_terminator c = (let n = (of_char c :: nat) in n = 10 \<or> n = 13)"

definition trim :: "string \<Rightarrow> string" where
  "trim s = rev (dropWhile is_space (rev (dropWhile is_space s)))"

text \<open>\<^verbatim>\<open>s.indexOf(p)\<close>: \<open>None\<close> stands for \<open>-1\<close>.\<close>

fun indexOf :: "string \<Rightarrow> string \<Rightarrow> nat option" where
  "indexOf [] p = (if p = [] then Some 0 else None)"
| "indexOf (c # cs) p =
     (if prefix p (c # cs) then Some 0 else map_option Suc (indexOf cs p))"

text \<open>
  \<^verbatim>\<open>s.replace(/p/g, r)\<close> for a literal, non-empty pattern \<open>p\<close>: every occurrence, found
  from left to right without overlap, is replaced. The counter is the number of characters
  of the current match still to be skipped.
\<close>

fun replace_go :: "string \<Rightarrow> string \<Rightarrow> nat \<Rightarrow> string \<Rightarrow> string" where
  "replace_go p r n [] = []"
| "replace_go p r (Suc n) (c # cs) = replace_go p r n cs"
| "replace_go p r 0 (c # cs) =
     (if p \<noteq> [] \<and> prefix p (c # cs) then r @ replace_go p r (length p - 1) cs
      else c # replace_go p r 0 cs)"

definition replace_all :: "string \<Rightarrow> string \<Rightarrow> string \<Rightarrow> string" where
  "replace_all p r s = replace_go p r 0 s"

text \<open>\<^verbatim>\<open>s.replace('@', '')\<close> with a string pattern: the first occurrence only.\<close>

fun remove_first :: "char \<Rightarrow> string \<Rightarrow> string" where
  "remove_first a [] = []"
| "remove_first a (c # cs) = (if c = a then cs else c # remove_first a cs)"

definition newline :: char where
  "newline = char_of (10 :: nat)"

definition en_dash :: string where
  "en_dash = map char_of [226, 128, 147 :: nat]"

definition em_dash :: string where
  "em_dash = map char_of [226, 128, 148 :: nat]"

definition bullet :: string where
  "bullet = map char_of [226, 128, 162 :: nat]"

definition ellipsis :: string where
  "ellipsis = map char_of [226, 128, 166 :: nat]"

text \<open>The manual replacement chain of \<^verbatim>\<open>decodeHtmlEntities\<close>, in the source's order.\<close>

definition decode_manual :: "string \<Rightarrow> string" where
  "decode_manual text =
     replace_all [newline] '' ''
      (replace_all ''&hellip;'' ellipsis
      (replace_all ''&bull;'' bullet
      (replace_all ''&rdquo;'' [CHR 0x22]
      (replace_all ''&ldquo;'' [CHR 0x22]
      (replace_all ''&mdash;'' em_dash
      (replace_all ''&ndash;'' en_dash
      (replace_all ''&nbsp;'' '' ''
      (replace_all ''&#x2B;'' ''+''
      (replace_all ''&#x27;'' [CHR 0x27]
      (replace_all ''&#x2F;'' ''/''
      (replace_all ''&#39;'' [CHR 0x27]
      (replace_all ''&apos;'' [CHR 0x27]
      (replace_all ''&quot;'' [CHR 0x22]
      (replace_all ''&amp;'' ''&''
      (replace_all ''&lt;'' ''<''
      (replace_all ''&gt;'' ''>'' text))))))))))))))))"

subsection \<open>\<^verbatim>\<open>cleanupTweetContent\<close>\<close>

text \<open>\<^verbatim>\<open>/^RT:\s*/i\<close>: a leading \<open>RT:\<close> in any case, with the white space after it.\<close>

definition strip_rt :: "string \<Rightarrow> string" where
  "strip_rt s =
     (if toLowerCase (take 3 s) = ''rt:'' then dropWhile is_space (drop 3 s) else s)"

text \<open>
  One match of \<open>lit\<close>\<^verbatim>\<open>\S+\<close> at the head of \<open>s\<close> for the first literal of \<open>lits\<close> that
  fits: the literal and at least one character that is not white space. The result is what
  follows the match.
\<close>

definition match_run :: "string list \<Rightarrow> string \<Rightarrow> string option" where
  "match_run lits s =
     (case find (\<lambda>l. prefix l s \<and> drop (length l) s \<noteq> []
                     \<and> \<not> is_space (hd (drop (length l) s))) lits of
        None \<Rightarrow> None
      | Some l \<Rightarrow> Some (dropWhile (\<lambda>c. \<not> is_space c) (drop (length l) s)))"

lemma find_Some_holds: "find P xs = Some x \<Longrightarrow> P x"
  by (induction xs) (auto split: if_splits)

lemma match_run_shorter: "match_run lits s = Some rest \<Longrightarrow> length rest < length s"
proof -
  assume m: "match_run lits s = Some rest"
  then obtain l where f: "find (\<lambda>l. prefix l s \<and> drop (length l) s \<noteq> []
        \<and> \<not> is_space (hd (drop (length l) s))) lits = Some l"
    and rest: "rest = dropWhile (\<lambda>c. \<not> is_space c) (drop (length l) s)"
    by (auto simp: match_run_def split: option.splits)
  from find_Some_holds[OF f]
  have l: "drop (length l) s \<noteq> []" "\<not> is_space (hd (drop (length l) s))" by simp_all
  from l obtain c cs where d: "drop (length l) s = c # cs" by (cases "drop (length l) s") auto
  with l(2) rest have "rest = dropWhile (\<lambda>c. \<not> is_space c) cs" by simp
  then have "length rest \<le> length cs" by (simp add: length_dropWhile_le)
  also have "length cs < length (drop (length l) s)" using d by simp
  also have "\<dots> \<le> length s" by simp
  finally show ?thesis .
qed

text \<open>\<^verbatim>\<open>s.replace(/lit\S+/g, '')\<close>, matches taken from left to right.\<close>

function remove_runs :: "string list \<Rightarrow> string \<Rightarrow> string" where
  "remove_runs lits [] = []"
| "remove_runs lits (c # cs) =
     (case match_run lits (c # cs) of
        Some rest \<Rightarrow> remove_runs lits rest
      | None \<Rightarrow> c # remove_runs lits cs)"
  by pat_completeness auto
termination
  by (relation "measure (\<lambda>(lits, s). length s)") (auto dest: match_run_shorter)

text \<open>
  The pattern \<^verbatim>\<open>/<ellipsis>\s*$/\<close>: an ellipsis followed by white space only, up to the
  end of the string.
\<close>

fun strip_trailing_ellipsis :: "string \<Rightarrow> string" where
  "strip_trailing_ellipsis [] = []"
| "strip_trailing_ellipsis (c # cs) =
     (if prefix ellipsis (c # cs) \<and> list_all is_space (drop (length ellipsis) (c # cs)) then []
      else c # strip_trailing_ellipsis cs)"

text \<open>
  \<^verbatim>\<open>s.replace(/\s{2,}/g, ' ')\<close>: a run of two or more white-space characters becomes one
  blank; the flag says that the scan is inside such a run.
\<close>

fun collapse_go :: "bool \<Rightarrow> string \<Rightarrow> string" where
  "collapse_go in_run [] = []"
| "collapse_go True (c # cs) =
     (if is_space c then collapse_go True cs else c # collapse_go False cs)"
| "collapse_go False (c # cs) =
     (if is_space c \<and> cs \<noteq> [] \<and> is_space (hd cs) then CHR '' '' # collapse_go True cs
      else c # collapse_go False cs)"

definition cleanupTweetContent :: "string \<Rightarrow> string" where
  "cleanupTweetContent text =
     (if text = [] then []
      else
        let t1 = strip_rt text;
            t2 = (case indexOf t1 ''Quote [@'' of None \<Rightarrow> t1 | Some i \<Rightarrow> trim (take i t1))
        in trim (collapse_go False (strip_trailing_ellipsis
             (remove_runs [''twitter.com/''] (remove_runs [''x.com/''] (remove_runs [''t.co/'']
               (remove_runs [''http://'', ''https://''] t2)))))))"

section \<open>Format adapters (services/apiService.ts: convertTreeFormat, convertPhoenixFormat)\<close>

subsection \<open>Raw payloads\<close>

text \<open>
  A payload is what \<^verbatim>\<open>JSON.parse\<close> returns, or a property read from it: \<open>JUndefined\<close>
  is \<^verbatim>\<open>undefined\<close>. An object is the list of its properties, numbers are integers
  (\<^verbatim>\<open>NaN\<close>, which only an invalid date gives, is not represented). The events that
  the adapters build are objects of the same kind.
\<close>

datatype json =
    JUndefined
  | JNull
  | JBool bool
  | JNum int
  | JStr string
  | JArr "json list"
  | JObj "(string \<times> json) list"

datatype exn = TypeError | Error string

fun js_truthy :: "json \<Rightarrow> bool" where
  "js_truthy JUndefined = False"
| "js_truthy JNull = False"
| "js_truthy (JBool b) = b"
| "js_truthy (JNum n) = (n \<noteq> 0)"
| "js_truthy (JStr s) = (s \<noteq> [])"
| "js_truthy (JArr xs) = True"
| "js_truthy (JObj kvs) = True"

text \<open>\<^verbatim>\<open>a || b\<close>\<close>

definition js_or :: "json \<Rightarrow> json \<Rightarrow> json" where
  "js_or a b = (if js_truthy a then a else b)"

text \<open>\<^verbatim>\<open>typeof v === 'object'\<close>\<close>

fun typeof_object :: "json \<Rightarrow> bool" where
  "typeof_object JNull = True"
| "typeof_object (JArr xs) = True"
| "typeof_object (JObj kvs) = True"
| "typeof_object v = False"

text \<open>
  \<^verbatim>\<open>v.k\<close> and \<^verbatim>\<open>v?.k\<close> for the property names that the adapters read, none of which
  is a built-in property of arrays, strings, numbers or booleans: an object gives its
  property, every other value \<^verbatim>\<open>undefined\<close>. The adapters read \<^verbatim>\<open>v.k\<close> only from
  values that passed a truthiness test; \<^verbatim>\<open>v?.k\<close> is \<^verbatim>\<open>undefined\<close> for \<^verbatim>\<open>null\<close> and
  \<^verbatim>\<open>undefined\<close>.
\<close>

fun get :: "json \<Rightarrow> string \<Rightarrow> json" where
  "get (JObj kvs) k = (case map_of kvs k of None \<Rightarrow> JUndefined | Some v \<Rightarrow> v)"
| "get v k = JUndefined"

text \<open>\<^verbatim>\<open>o.k = v\<close> on an object: the property is replaced, or added at the end.\<close>

fun set_prop :: "json \<Rightarrow> string \<Rightarrow> json \<Rightarrow> json" where
  "set_prop (JObj kvs) k v =
     (if k \<in> fst ` set kvs then JObj (map (\<lambda>(k', v'). if k' = k then (k', v) else (k', v')) kvs)
      else JObj (kvs @ [(k, v)]))"
| "set_prop o' k v = o'"

definition then_e :: "exn + 'a \<Rightarrow> ('a \<Rightarrow> exn + 'b) \<Rightarrow> exn + 'b" where
  "then_e m f = (case m of Inl err \<Rightarrow> Inl err | Inr v \<Rightarrow> f v)"

text \<open>\<^verbatim>\<open>try { block } catch (error) { handler }\<close>\<close>

definition try_catch :: "exn + 'a \<Rightarrow> (exn \<Rightarrow> exn + 'a) \<Rightarrow> exn + 'a" where
  "try_catch block handler = (case block of Inl err \<Rightarrow> handler err | Inr v \<Rightarrow> Inr v)"

text \<open>
  What a conversion reads from outside: the four \<^verbatim>\<open>Date.now()\<close> calls (for a generated
  id, for a missing time, and the two of the error path), the random suffix of a generated
  id, the browser's entity decoding when \<^verbatim>\<open>document\<close> exists (\<open>None\<close> when it does not, as
  in React Native; the function gives \<^verbatim>\<open>textarea.value\<close> after
  \<^verbatim>\<open>textarea.innerHTML = text\<close>, or \<open>None\<close> when that throws), and \<^verbatim>\<open>new Date(v).getTime()\<close>.
\<close>

record adapter_env =
  now_id :: nat
  now_time :: nat
  now_error_id :: nat
  now_error_time :: nat
  rnd_suffix :: string
  dom_decode :: "(json \<Rightarrow> string option) option"
  date_getTime :: "json \<Rightarrow> json"

text \<open>
  \<^verbatim>\<open>decodeHtmlEntities\<close>: a falsy argument gives the empty string; with a document the
  browser decodes and newlines become blanks; otherwise, and when the browser path throws,
  the manual chain runs, which calls \<^verbatim>\<open>text.replace\<close> and so throws a \<^verbatim>\<open>TypeError\<close>
  for a value that is not a string.
\<close>

definition decode_fallback :: "json \<Rightarrow> exn + string" where
  "decode_fallback text = (case text of JStr s \<Rightarrow> Inr (decode_manual s) | _ \<Rightarrow> Inl TypeError)"

definition decodeHtmlEntities :: "adapter_env \<Rightarrow> json \<Rightarrow> exn + string" where
  "decodeHtmlEntities e text =
     (if \<not> js_truthy text then Inr []
      else case dom_decode e of
             None \<Rightarrow> decode_fallback text
           | Some browser \<Rightarrow>
               (case browser text of
                  None \<Rightarrow> decode_fallback text
                | Some v \<Rightarrow> Inr (replace_all [newline] '' '' v)))"

text \<open>
  \<^verbatim>\<open>v?.includes('@')\<close>, as a truth value: strings and arrays have the method, a call on
  any other value that is not \<^verbatim>\<open>null\<close> or \<^verbatim>\<open>undefined\<close> throws.
\<close>

definition opt_includes_at :: "json \<Rightarrow> exn + bool" where
  "opt_includes_at v =
     (case v of
        JUndefined \<Rightarrow> Inr False
      | JNull \<Rightarrow> Inr False
      | JStr s \<Rightarrow> Inr (str_includes s ''@'')
      | JArr xs \<Rightarrow> Inr (JStr ''@'' \<in> set xs)
      | _ \<Rightarrow> Inl TypeError)"

subsection \<open>The placeholder event of the error path\<close>

definition error_item :: "string \<Rightarrow> adapter_env \<Rightarrow> json" where
  "error_item src e =
     JObj [(''_id'', JStr (''error-'' @ src @ ''-'' @ digits (now_error_id e))),
           (''title'', JStr ''Error processing news item''),
           (''source'', JStr ''Error''),
           (''time'', JNum (int (now_error_time e))),
           (''newsSource'', JStr src)]"

definition not_an_object :: "json \<Rightarrow> bool" where
  "not_an_object item = (\<not> js_truthy item \<or> \<not> typeof_object item)"

subsection \<open>Source A: \<^verbatim>\<open>convertTreeFormat\<close>\<close>

text \<open>
  \<^verbatim>\<open>item.source === 'X' || item.source === 'Twitter' ||
  (item.info?.twitterId && item.title?.includes('@'))\<close>, as a truth value.
\<close>

definition tree_isTwitterOrXPost :: "json \<Rightarrow> exn + bool" where
  "tree_isTwitterOrXPost item =
     (if get item ''source'' = JStr ''X'' \<or> get item ''source'' = JStr ''Twitter'' then Inr True
      else if js_truthy (get (get item ''info'') ''twitterId'')
           then opt_includes_at (get item ''title'')
           else Inr False)"

text \<open>
  \<^verbatim>\<open>if (item.info?.quotedUser?.text)
     item.info.quotedUser.text = decodeHtmlEntities(item.info.quotedUser.text)\<close>:
  the result is \<^verbatim>\<open>item.info\<close> after the assignment.
\<close>

definition tree_decode_quoted :: "adapter_env \<Rightarrow> json \<Rightarrow> exn + json" where
  "tree_decode_quoted e info' =
     (let q = get info' ''quotedUser''; t = get q ''text'' in
      if js_truthy t
      then then_e (decodeHtmlEntities e t)
             (\<lambda>d. Inr (set_prop info' ''quotedUser'' (set_prop q ''text'' (JStr d))))
      else Inr info')"

text \<open>
  The \<^verbatim>\<open>try\<close> block of \<^verbatim>\<open>convertTreeFormat\<close>. The two assignments to the payload
  (\<^verbatim>\<open>item._id\<close>, \<^verbatim>\<open>item.source\<close>) are the local values \<open>id'\<close> and \<open>source'\<close>, read
  once when the event is built.
\<close>

definition convertTreeFormat_try :: "adapter_env \<Rightarrow> json \<Rightarrow> exn + json" where
  "convertTreeFormat_try e item =
     (if not_an_object item then Inl (Error ''Invalid news item: not an object'')
      else
        let id' = (if \<not> js_truthy (get item ''_id'')
                   then JStr (''tree-'' @ digits (now_id e) @ ''-'' @ rnd_suffix e)
                   else get item ''_id'')
        in
        then_e (tree_isTwitterOrXPost item) (\<lambda>isTwitterOrXPost.
        then_e (decodeHtmlEntities e (js_or (get item ''title'') (JStr []))) (\<lambda>title0.
        then_e (decodeHtmlEntities e (js_or (get item ''body'') (JStr []))) (\<lambda>body'.
        let title' = (if isTwitterOrXPost \<and> title0 \<noteq> [] then cleanupTweetContent title0
                      else title0);
            source' = (if isTwitterOrXPost then JStr ''X'' else get item ''source'')
        in
        then_e (tree_decode_quoted e (get item ''info'')) (\<lambda>info'.
        Inr (JObj
          [(''_id'', id'),
           (''title'', JStr title'),
           (''body'', JStr body'),
           (''source'', js_or source' (JStr (if isTwitterOrXPost then ''X'' else ''News''))),
           (''url'', js_or (get item ''url'') (get item ''link'')),
           (''time'', js_or (get item ''time'') (JNum (int (now_time e)))),
           (''suggestions'', (case get item ''suggestions'' of JArr xs \<Rightarrow> JArr xs | _ \<Rightarrow> JArr [])),
           (''icon'', get item ''icon''),
           (''image'', get item ''image''),
           (''info'', info'),
           (''isHighlighted'', get item ''isHighlighted''),
           (''requireInteraction'', get item ''requireInteraction''),
           (''type'', get item ''type''),
           (''coin'', get item ''coin''),
           (''newsSource'', JStr ''tree'')]))))))"

definition convertTreeFormat :: "adapter_env \<Rightarrow> json \<Rightarrow> exn + json" where
  "convertTreeFormat e item =
     try_catch (convertTreeFormat_try e item) (\<lambda>error. Inr (error_item ''tree'' e))"

subsection \<open>Source B: \<^verbatim>\<open>convertPhoenixFormat\<close>\<close>

definition quoteMarker :: string where
  "quoteMarker = ''&gt;&gt;QUOTE ''"

text \<open>
  \<^verbatim>\<open>quotedUserInfo.match(/(.*?)\s*\((.*?)\)/)\<close>, the two groups of the first match.
  \<open>group2_at t\<close> matches \<^verbatim>\<open>\s*\((.*?)\)\<close> at the head of \<open>t\<close>: white space, an opening
  parenthesis, and the shortest text without a line terminator up to a closing parenthesis.
  \<open>scan_g1 t\<close> matches the whole pattern at the head of \<open>t\<close>: the first group is the
  shortest text without a line terminator after which \<open>group2_at\<close> succeeds.
  \<open>username_match\<close> tries the start positions from left to right.
\<close>

definition group2_at :: "string \<Rightarrow> string option" where
  "group2_at t =
     (case dropWhile is_space t of
        [] \<Rightarrow> None
      | c # rest \<Rightarrow>
          if c = CHR ''(''
          then (let g2 = takeWhile (\<lambda>c. c \<noteq> CHR '')'') rest in
                if length g2 < length rest \<and> \<not> list_ex is_line_terminator g2
                then Some g2 else None)
          else None)"

fun scan_g1 :: "string \<Rightarrow> (string \<times> string) option" where
  "scan_g1 [] = None"
| "scan_g1 (c # cs) =
     (case group2_at (c # cs) of
        Some g2 \<Rightarrow> Some ([], g2)
      | None \<Rightarrow>
          if is_line_terminator c then None
          else map_option (\<lambda>(g1, g2). (c # g1, g2)) (scan_g1 cs))"

fun username_match :: "string \<Rightarrow> (string \<times> string) option" where
  "username_match [] = None"
| "username_match (c # cs) =
     (case scan_g1 (c # cs) of Some r \<Rightarrow> Some r | None \<Rightarrow> username_match cs)"

text \<open>
  The quoted user that the adapter builds from \<^verbatim>\<open>quotedUserInfo\<close> and
  \<^verbatim>\<open>quotedContent\<close>: name and handle when the pattern matches, the whole prefix as the
  name otherwise. (The \<^verbatim>\<open>catch (parseError)\<close> around this step is not reachable: on
  strings, \<^verbatim>\<open>match\<close>, \<^verbatim>\<open>trim\<close> and \<^verbatim>\<open>replace\<close> do not throw.)
\<close>

definition quoted_user_of :: "string \<Rightarrow> string \<Rightarrow> json" where
  "quoted_user_of quotedUserInfo quotedContent =
     (case username_match quotedUserInfo of
        Some (g1, g2) \<Rightarrow>
          JObj [(''name'', JStr (trim g1)),
                (''screen_name'', JStr (remove_first CHR ''@'' (trim g2))),
                (''text'', JStr quotedContent),
                (''icon'', JUndefined),
                (''image'', JNull)]
      | None \<Rightarrow>
          JObj [(''name'', JStr quotedUserInfo),
                (''screen_name'', JStr []),
                (''text'', JStr quotedContent),
                (''icon'', JNull),
                (''image'', JNull)])"

text \<open>
  The quote parsing for a string body: the new title and the quoted user
  (\<^verbatim>\<open>null\<close> when there is none).
\<close>

definition parse_quote :: "string \<Rightarrow> json \<times> json" where
  "parse_quote b =
     (case indexOf b quoteMarker of
        None \<Rightarrow> (JStr b, JNull)
      | Some quoteIndex \<Rightarrow>
          let mainContent = trim (take quoteIndex b);
              quoteContent = drop (quoteIndex + length quoteMarker) b
          in (case indexOf quoteContent '')'' of
                None \<Rightarrow> (JStr b, JNull)
              | Some usernameEndIndex \<Rightarrow>
                  let quotedUserInfo = take (usernameEndIndex + 1) quoteContent;
                      quotedContent = trim (drop (usernameEndIndex + 1) quoteContent)
                  in (JStr mainContent, quoted_user_of quotedUserInfo quotedContent)))"

text \<open>
  The inner \<^verbatim>\<open>try\<close> block for any truthy body. An array has \<^verbatim>\<open>indexOf\<close> but no
  \<^verbatim>\<open>substring\<close>; other values that are not strings have neither. The inner
  \<^verbatim>\<open>catch\<close> uses the whole body as the title.
\<close>

definition quote_block :: "json \<Rightarrow> exn + json \<times> json" where
  "quote_block b =
     (case b of
        JStr s \<Rightarrow> Inr (parse_quote s)
      | JArr xs \<Rightarrow> if JStr quoteMarker \<in> set xs then Inl TypeError else Inr (b, JNull)
      | _ \<Rightarrow> Inl TypeError)"

definition quote_or_whole :: "json \<Rightarrow> json \<times> json" where
  "quote_or_whole b = (case quote_block b of Inl err \<Rightarrow> (b, JNull) | Inr r \<Rightarrow> r)"

definition phoenix_isTwitterOrXPost :: "json \<Rightarrow> bool" where
  "phoenix_isTwitterOrXPost item =
     (get item ''source'' = JStr ''X'' \<or> get item ''source'' = JStr ''Twitter'' \<or>
      (js_truthy (get item ''twitterId'') \<and> js_truthy (get item ''username'')))"

text \<open>The \<^verbatim>\<open>info\<close> object of a Twitter/X event, before a quoted user is attached.\<close>

definition phoenix_info :: "json \<Rightarrow> json" where
  "phoenix_info item =
     JObj [(''twitterId'', js_or (js_or (get item ''twitterId'') (get item ''tweetId'')) (JStr [])),
           (''isReply'', JBool (js_truthy (get item ''isReply''))),
           (''isRetweet'', JBool (js_truthy (get item ''isRetweet''))),
           (''isQuote'', JBool (js_truthy (get item ''isQuote''))),
           (''isSelfReply'', JBool (js_truthy (get item ''isSelfReply''))),
           (''username'', js_or (get item ''username'') (JStr [])),
           (''name'', js_or (get item ''name'') (JStr []))]"

text \<open>
  \<^verbatim>\<open>if (item.isQuote) { if (quotedUser) ... else if (item.quotedUser) ... }\<close>: the
  \<^verbatim>\<open>info\<close> object with the quoted user attached, if any.
\<close>

definition phoenix_attach_quoted :: "adapter_env \<Rightarrow> json \<Rightarrow> json \<Rightarrow> json \<Rightarrow> exn + json" where
  "phoenix_attach_quoted e item quotedUser' info' =
     (if js_truthy (get item ''isQuote'') then
        if js_truthy quotedUser' then Inr (set_prop info' ''quotedUser'' quotedUser')
        else if js_truthy (get item ''quotedUser'') then
          let q = get item ''quotedUser'' in
          then_e (decodeHtmlEntities e (js_or (get q ''text'') (JStr []))) (\<lambda>t.
            Inr (set_prop info' ''quotedUser''
              (JObj [(''name'', js_or (get q ''name'') (JStr [])),
                     (''screen_name'', js_or (get q ''screen_name'') (JStr [])),
                     (''icon'', get q ''icon''),
                     (''text'', JStr t),
                     (''image'', get q ''image'')])))
        else Inr info'
      else Inr info')"

definition phoenix_timestamp :: "adapter_env \<Rightarrow> json \<Rightarrow> json" where
  "phoenix_timestamp e item =
     js_or (get item ''time'')
       (if js_truthy (get item ''createdAt'') then date_getTime e (get item ''createdAt'')
        else if js_truthy (get item ''receivedAt'') then date_getTime e (get item ''receivedAt'')
        else JNum (int (now_time e)))"

definition convertPhoenixFormat_try :: "adapter_env \<Rightarrow> json \<Rightarrow> exn + json" where
  "convertPhoenixFormat_try e item =
     (if not_an_object item then Inl (Error ''Invalid news item: not an object'')
      else
        let id' = js_or (get item ''_id'')
                    (JStr (''phoenix-'' @ digits (now_id e) @ ''-'' @ rnd_suffix e));
            isTwitterOrXPost = phoenix_isTwitterOrXPost item;
            title0 = js_or (get item ''title'') (JStr []);
            body0 = js_or (get item ''body'') (JStr []);
            parsed = (if isTwitterOrXPost \<and> js_truthy body0
                      then (fst (quote_or_whole body0), JStr [], snd (quote_or_whole body0))
                      else (title0, body0, JNull));
            title1 = fst parsed;
            body1 = fst (snd parsed);
            quotedUser' = snd (snd parsed)
        in
        then_e (decodeHtmlEntities e title1) (\<lambda>title2.
        then_e (decodeHtmlEntities e body1) (\<lambda>body'.
        let title' = (if isTwitterOrXPost then cleanupTweetContent title2 else title2);
            newsItem = JObj
              [(''_id'', id'),
               (''title'', JStr title'),
               (''body'', JStr body'),
               (''source'', (if isTwitterOrXPost then JStr ''X''
                             else js_or (js_or (get item ''sourceName'') (get item ''source''))
                                    (JStr ''Unknown''))),
               (''url'', js_or (get item ''url'') (JStr [])),
               (''time'', phoenix_timestamp e item),
               (''suggestions'', (case get item ''suggestions'' of JArr xs \<Rightarrow> JArr xs | _ \<Rightarrow> JArr [])),
               (''icon'', get item ''icon''),
               (''image'', get item ''image''),
               (''newsSource'', JStr ''phoenix'')]
        in
        if isTwitterOrXPost
        then then_e (phoenix_attach_quoted e item quotedUser' (phoenix_info item))
               (\<lambda>info'. Inr (set_prop newsItem ''info'' info'))
        else Inr newsItem)))"

definition convertPhoenixFormat :: "adapter_env \<Rightarrow> json \<Rightarrow> exn + json" where
  "convertPhoenixFormat e item =
     try_catch (convertPhoenixFormat_try e item) (\<lambda>error. Inr (error_item ''phoenix'' e))"

text \<open>An environment without a document, and the payload of the quote scenario.\<close>

definition native_env :: adapter_env where
  "native_env =
     \<lparr>now_id = 11, now_time = 12, now_error_id = 13, now_error_time = 14,
      rnd_suffix = ''k3j9x2a'', dom_decode = None, date_getTime = (\<lambda>v. JNum 0)\<rparr>"

definition quote_payload :: "json \<Rightarrow> json" where
  "quote_payload isQuote' =
     JObj [(''_id'', JStr ''p1''),
           (''source'', JStr ''Twitter''),
           (''body'', JStr ''hello &gt;&gt;QUOTE Alice (@alice) nice''),
           (''isQuote'', isQuote'),
           (''time'', JNum 1700000000000)]"


section \<open>Filter keywords of the store (store/newsStore, addFilterKeyword)\<close>

text \<open>
  \<^verbatim>\<open>addFilterKeyword\<close>: the keyword is lower-cased and trimmed; an empty or already
  stored keyword changes nothing; the id of a new keyword is \<^verbatim>\<open>Date.now().toString()\<close>.
\<close>

definition addFilterKeyword :: "nat \<Rightarrow> string \<Rightarrow> NewsState \<Rightarrow> NewsState" where
  "addFilterKeyword now_ms keyword' state =
     (let normalizedKeyword = trim (toLowerCase keyword') in
      if normalizedKeyword = [] then state
      else if list_ex (\<lambda>k. keyword k = normalizedKeyword) (filterKeywords state) then state
      else state\<lparr>filterKeywords := filterKeywords state
                    @ [\<lparr>kw_id = digits now_ms, keyword = normalizedKeyword\<rparr>]\<rparr>)"


lemma backoff_delay_mono: "m \<le> n \<Longrightarrow> backoff_delay m \<le> backoff_delay n"
proof -
  assume "m \<le> n"
  then have "m - 1 \<le> n - 1" by simp
  then have "(3 / 2 :: real) ^ (m - 1) \<le> (3 / 2) ^ (n - 1)"
    by (intro power_increasing) simp_all
  then have "1000 * (3 / 2 :: real) ^ (m - 1) \<le> 1000 * (3 / 2) ^ (n - 1)"
    by simp
  then show ?thesis
    unfolding backoff_delay_def by (rule min.mono) simp
qed

lemma backoff_delay_cap: "backoff_delay n \<le> 60000"
  by (simp add: backoff_delay_def)

lemma scheduleReconnect_pending:
  "ws_url s \<noteq> [] \<Longrightarrow> reconnectTimeout (scheduleReconnect s) \<noteq> None"
  by (simp add: scheduleReconnect_def Let_def)

lemma scheduleReconnect_idle:
  "\<not> (reconnectTimeout s = None \<and> ws_url s \<noteq> []) \<Longrightarrow> scheduleReconnect s = s"
  by (auto simp: scheduleReconnect_def)

text \<open>What the error handler and the timer callback leave alone.\<close>

lemma handleError_keeps:
  "ws_url (handleError s) = ws_url s
   \<and> isCleaned (handleError s) = isCleaned s
   \<and> isHandlingErrorOrClose (handleError s) = isHandlingErrorOrClose s"
  by (simp add: handleError_def scheduleReconnect_def Let_def)

lemma handleError_no_timer:
  "ws_url s = [] \<or> isCleaned s \<or> isHandlingErrorOrClose s \<or> reconnectTimeout s \<noteq> None \<Longrightarrow>
   reconnectTimeout (handleError s) = reconnectTimeout s
   \<and> reconnectAttempts (handleError s) = reconnectAttempts s"
  by (auto simp: handleError_def scheduleReconnect_def Let_def)

lemma handleError_arms:
  assumes "ws_url s \<noteq> []" and "\<not> isCleaned s" and "\<not> isHandlingErrorOrClose s"
    and "reconnectTimeout s = None"
  shows "reconnectTimeout (handleError s) =
           Some (backoff_delay (min (reconnectAttempts s + 1) maxReconnectAttempts))"
    and "reconnectAttempts (handleError s) = min (reconnectAttempts s + 1) maxReconnectAttempts"
  using assms by (simp_all add: handleError_def scheduleReconnect_def Let_def min_def)

lemma reconnect_timer_callback_keeps:
  "reconnectTimeout (reconnect_timer_callback c s) = None
   \<and> ws_url (reconnect_timer_callback None s) = ws_url s
   \<and> isCleaned (reconnect_timer_callback None s) = isCleaned s
   \<and> isHandlingErrorOrClose (reconnect_timer_callback None s) = isHandlingErrorOrClose s
   \<and> reconnectAttempts (reconnect_timer_callback None s) = reconnectAttempts s"
  by (simp add: reconnect_timer_callback_def connect_def Let_def)

lemma reconnect_delays_stuck:
  "ws_url s = [] \<or> isCleaned s \<or> isHandlingErrorOrClose s \<Longrightarrow> reconnect_delays k s = []"
proof (induction k arbitrary: s)
  case 0
  then show ?case by simp
next
  case (Suc k)
  let ?s' = "reconnect_timer_callback None (handleError s)"
  have "ws_url ?s' = [] \<or> isCleaned ?s' \<or> isHandlingErrorOrClose ?s'"
    using Suc.prems by (simp add: reconnect_timer_callback_keeps handleError_keeps)
  from Suc.IH[OF this] handleError_no_timer[of s] Suc.prems show ?case
    by (simp add: newly_armed_def)
qed

lemma reconnect_delays_closed_form:
  "ws_url s \<noteq> [] \<Longrightarrow> \<not> isCleaned s \<Longrightarrow> \<not> isHandlingErrorOrClose s \<Longrightarrow>
   reconnectTimeout s = None \<Longrightarrow>
   reconnect_delays k s =
     map (\<lambda>i. backoff_delay (min (reconnectAttempts s + 1 + i) maxReconnectAttempts)) [0..<k]"
proof (induction k arbitrary: s)
  case 0
  then show ?case by simp
next
  case (Suc k)
  let ?s' = "reconnect_timer_callback None (handleError s)"
  let ?n = "min (reconnectAttempts s + 1) maxReconnectAttempts"
  have u: "ws_url ?s' \<noteq> []" and c: "\<not> isCleaned ?s'" and h: "\<not> isHandlingErrorOrClose ?s'"
    and t: "reconnectTimeout ?s' = None"
    using Suc.prems by (simp_all add: reconnect_timer_callback_keeps handleError_keeps)
  have armed: "newly_armed s (handleError s) = [backoff_delay ?n]"
    using Suc.prems handleError_arms(1)[of s] by (simp add: newly_armed_def)
  have att: "reconnectAttempts ?s' = ?n"
    using Suc.prems handleError_arms(2)[of s] by (simp add: reconnect_timer_callback_keeps)
  have "reconnect_delays (Suc k) s = backoff_delay ?n # reconnect_delays k ?s'"
    using armed by simp
  also have "reconnect_delays k ?s' =
      map (\<lambda>i. backoff_delay (min (?n + 1 + i) maxReconnectAttempts)) [0..<k]"
    using Suc.IH[OF u c h t] att by simp
  also have "\<dots> = map (\<lambda>i. backoff_delay (min (reconnectAttempts s + 1 + Suc i) maxReconnectAttempts)) [0..<k]"
    by (rule map_cong) (auto simp: min_def)
  finally show ?case
    by (simp add: map_upt_Suc del: upt_Suc)
qed

text \<open>
  From any state, the delays armed by \<open>k\<close> failures that arrive as error events are an
  initial part of the backoff sequence that starts at the current attempt counter.
\<close>

lemma reconnect_delays_shape:
  "\<exists>n \<le> k. reconnect_delays k s =
     map (\<lambda>i. backoff_delay (min (reconnectAttempts s + 1 + i) maxReconnectAttempts)) [0..<n]"
proof (cases "ws_url s = [] \<or> isCleaned s \<or> isHandlingErrorOrClose s")
  case True
  then have "reconnect_delays k s = []" by (rule reconnect_delays_stuck)
  then show ?thesis by (intro exI[of _ 0]) simp
next
  case live: False
  show ?thesis
  proof (cases "reconnectTimeout s = None")
    case True
    from live True reconnect_delays_closed_form[of s k] show ?thesis by blast
  next
    case pending: False
    show ?thesis
    proof (cases k)
      case 0
      then show ?thesis by simp
    next
      case (Suc j)
      let ?s' = "reconnect_timer_callback None (handleError s)"
      have u: "ws_url ?s' \<noteq> []" and c: "\<not> isCleaned ?s'" and h: "\<not> isHandlingErrorOrClose ?s'"
        and t: "reconnectTimeout ?s' = None"
        using live by (simp_all add: reconnect_timer_callback_keeps handleError_keeps)
      have a: "reconnectAttempts ?s' = reconnectAttempts s"
        using pending handleError_no_timer[of s] by (simp add: reconnect_timer_callback_keeps)
      have "reconnect_delays k s = reconnect_delays j ?s'"
        using pending by (auto simp: Suc newly_armed_def)
      also have "\<dots> = map (\<lambda>i. backoff_delay (min (reconnectAttempts s + 1 + i) maxReconnectAttempts)) [0..<j]"
        using reconnect_delays_closed_form[OF u c h t, of j] a by simp
      finally show ?thesis using Suc by (intro exI[of _ j]) simp
    qed
  qed
qed

lemma backoff_sequence_sorted:
  "sorted (map (\<lambda>i. backoff_delay (min (a + 1 + i) maxReconnectAttempts)) [0..<n])"
  by (auto simp: sorted_iff_nth_mono intro!: backoff_delay_mono)

text \<open>
  The delays of consecutive failures that arrive as error events are non-decreasing, never
  exceed 60000 ms, and are all the same once the counter is at its ceiling; a live service
  with a URL and no pending timer arms one delay per failure.
\<close>

lemma reconnect_delays_sorted: "sorted (reconnect_delays k s)"
  using reconnect_delays_shape[of k s] backoff_sequence_sorted by force

lemma reconnect_delays_cap: "d \<in> set (reconnect_delays k s) \<Longrightarrow> d \<le> 60000"
  using reconnect_delays_shape[of k s] backoff_delay_cap by force

lemma reconnect_delays_saturated:
  assumes "maxReconnectAttempts \<le> reconnectAttempts s" and "d \<in> set (reconnect_delays k s)"
  shows "d = backoff_delay maxReconnectAttempts"
proof -
  from reconnect_delays_shape[of k s] assms(2) obtain i where
    "d = backoff_delay (min (reconnectAttempts s + 1 + i) maxReconnectAttempts)" by force
  with assms(1) show ?thesis by (simp add: min_def)
qed

lemma reconnect_delays_length:
  "ws_url s \<noteq> [] \<Longrightarrow> \<not> isCleaned s \<Longrightarrow> \<not> isHandlingErrorOrClose s \<Longrightarrow>
   reconnectTimeout s = None \<Longrightarrow> length (reconnect_delays k s) = k"
  by (simp add: reconnect_delays_closed_form)

text \<open>
  Claim C5. The delays are as the claim says (lemmas \<open>reconnect_delays_sorted\<close>,
  \<open>reconnect_delays_cap\<close>, \<open>reconnect_delays_saturated\<close>), but reconnection does not
  always go on while a URL is configured. Take a service with the URL
  \<^verbatim>\<open>ws://35.76.194.63:4873\<close> whose transport constructor throws. The first
  \<^verbatim>\<open>connect\<close> ends in its \<^verbatim>\<open>catch\<close> block, which arms the reconnect timer with
  1000 ms. When that timer fires, its callback calls \<^verbatim>\<open>connect\<close> while the handle of
  the firing timer is still set: the constructor throws again, the \<^verbatim>\<open>scheduleReconnect\<close>
  of the \<^verbatim>\<open>catch\<close> block sees the handle and arms nothing, and the callback then clears
  the handle. The service is left with its URL, not connected, not connecting, with the
  failure published and no reconnect pending; the 15 s guard armed by that \<^verbatim>\<open>connect\<close>
  changes nothing, because \<^verbatim>\<open>isConnecting\<close> is already cleared. The same failure
  arriving as an error event does arm the next reconnect.
\<close>

theorem reconnect_stops_after_throwing_retry:
  "ws_url (first_connect_throws ''ws://35.76.194.63:4873'') = ''ws://35.76.194.63:4873''
   \<and> reconnectTimeout (first_connect_throws ''ws://35.76.194.63:4873'') = Some 1000
   \<and> ws_url (retry_throws ''ws://35.76.194.63:4873'') = ''ws://35.76.194.63:4873''
   \<and> \<not> isCleaned (retry_throws ''ws://35.76.194.63:4873'')
   \<and> \<not> isConnected (retry_throws ''ws://35.76.194.63:4873'')
   \<and> \<not> isConnecting (retry_throws ''ws://35.76.194.63:4873'')
   \<and> st_error (retry_throws ''ws://35.76.194.63:4873'')
        = Some ''[tree] Failed to connect: The operation is insecure.''
   \<and> reconnectAttempts (retry_throws ''ws://35.76.194.63:4873'') = 1
   \<and> reconnectTimeout (retry_throws ''ws://35.76.194.63:4873'') = None
   \<and> connectionTimeout_fired (retry_throws ''ws://35.76.194.63:4873'')
        = retry_throws ''ws://35.76.194.63:4873''
   \<and> reconnectTimeout (handleError
        (reconnect_timer_callback None (first_connect_throws ''ws://35.76.194.63:4873'')))
        = Some 1500"
  by (simp add: retry_throws_def first_connect_throws_def reconnect_timer_callback_def
      connect_def connectionTimeout_fired_def handleError_def scheduleReconnect_def
      fresh_service_def isConnected_def sourceType_name_def insecure_def backoff_delay_def
      maxReconnectAttempts_def Let_def)

text \<open>
  Claim C6, as stated, fails: with the counter capped at 10 the largest exponent is 9, and
  \<open>1000 * 1.5^9 = 38443.359375 < 60000\<close>. Twelve consecutive failures never arm a delay
  of 60000 ms; the twelfth delay is 38443.359375 ms.
\<close>

theorem reconnect_plateau_counterexample:
  "reconnect_delays 12 (fresh_service ''ws://35.76.194.63:4873'') ! 11 = 38443.359375
   \<and> 60000 \<notin> set (reconnect_delays 12 (fresh_service ''ws://35.76.194.63:4873''))"
  by code_simp

text \<open>
  Claim C6, amended. Twelve consecutive reconnect failures of a service with a URL, starting
  from a fresh counter, arm the delays 1000, 1500, 2250, ... (factor 1.5); the sequence
  plateaus at 38443.359375 ms (\<open>1000 * 1.5^9\<close>) from the tenth attempt on, where the
  counter saturates at \<open>maxReconnectAttempts = 10\<close>, and no delay exceeds 60000 ms.
\<close>

theorem reconnect_twelve_failures:
  assumes "u \<noteq> []"
  shows "reconnect_delays 12 (fresh_service u) =
      [1000, 1500, 2250, 3375, 5062.5, 7593.75, 11390.625, 17085.9375, 25628.90625,
       38443.359375, 38443.359375, 38443.359375]
    \<and> (\<forall>d \<in> set (reconnect_delays 12 (fresh_service u)). d \<le> 60000)
    \<and> (\<forall>i. 9 \<le> i \<and> i < 12 \<longrightarrow> reconnect_delays 12 (fresh_service u) ! i = 38443.359375)"
proof -
  have u: "ws_url (fresh_service u) \<noteq> []" using assms by (simp add: fresh_service_def)
  have t: "reconnectTimeout (fresh_service u) = None" by (simp add: fresh_service_def)
  have a: "reconnectAttempts (fresh_service u) = 0" by (simp add: fresh_service_def)
  have c: "\<not> isCleaned (fresh_service u)" by (simp add: fresh_service_def)
  have h: "\<not> isHandlingErrorOrClose (fresh_service u)" by (simp add: fresh_service_def)
  have ev: "map (\<lambda>i. backoff_delay (min (0 + 1 + i) maxReconnectAttempts)) [0..<12] =
      [1000, 1500, 2250, 3375, 5062.5, 7593.75, 11390.625, 17085.9375, 25628.90625,
       38443.359375, 38443.359375, 38443.359375]"
    by code_simp
  have eq: "reconnect_delays 12 (fresh_service u) =
      [1000, 1500, 2250, 3375, 5062.5, 7593.75, 11390.625, 17085.9375, 25628.90625,
       38443.359375, 38443.359375, 38443.359375]"
    using reconnect_delays_closed_form[OF u c h t, of 12] a ev by simp
  have cap: "\<forall>d \<in> set (reconnect_delays 12 (fresh_service u)). d \<le> 60000"
    using reconnect_delays_cap by blast
  have plateau: "reconnect_delays 12 (fresh_service u) ! i = 38443.359375"
    if "9 \<le> i" "i < 12" for i
  proof -
    from that have "i = 9 \<or> i = 10 \<or> i = 11" by arith
    then show ?thesis unfolding eq by auto
  qed
  from eq cap plateau show ?thesis by blast
qed

theorem reconnect_twelve_failures_witness:
  "''ws://35.76.194.63:4873'' \<noteq> [] \<and>
   reconnect_delays 12 (fresh_service ''ws://35.76.194.63:4873'') ! 9 = 38443.359375 \<and>
   last (reconnect_delays 12 (fresh_service ''ws://35.76.194.63:4873'')) = 38443.359375"
proof -
  have h: "''ws://35.76.194.63:4873'' \<noteq> []" by simp
  from reconnect_twelve_failures[OF h] show ?thesis by simp
qed

section \<open>Connection actor: clean disconnect\<close>



section \<open>Keyword matcher: properties\<close>

lemma str_includes_iff: "str_includes t k \<longleftrightarrow> (\<exists>p s. t = p @ k @ s)"
proof (induction t)
  case Nil
  then show ?case by auto
next
  case (Cons c cs)
  show ?case
  proof
    assume "str_includes (c # cs) k"
    then consider "prefix k (c # cs)" | "str_includes cs k" by auto
    then show "\<exists>p s. c # cs = p @ k @ s"
    proof cases
      case 1
      then obtain s where "c # cs = k @ s" by (auto simp: prefix_def)
      then have "c # cs = [] @ k @ s" by simp
      then show ?thesis by blast
    next
      case 2
      with Cons.IH obtain p s where "cs = p @ k @ s" by blast
      then have "c # cs = (c # p) @ k @ s" by simp
      then show ?thesis by blast
    qed
  next
    assume "\<exists>p s. c # cs = p @ k @ s"
    then obtain p s where eq: "c # cs = p @ k @ s" by blast
    show "str_includes (c # cs) k"
    proof (cases p)
      case Nil
      with eq have "prefix k (c # cs)" by (simp add: prefix_def)
      then show ?thesis by simp
    next
      case (Cons a p')
      with eq have "cs = p' @ k @ s" by simp
      with Cons.IH have "str_includes cs k" by blast
      then show ?thesis by simp
    qed
  qed
qed

lemma keyword_loop_find:
  "keyword_loop t b fs =
     map_option keyword (find (\<lambda>f. str_includes t (keyword f) \<or> str_includes b (keyword f)) fs)"
  by (induction fs) auto

lemma toLowerCase_Nil: "toLowerCase [] = []"
  by (simp add: toLowerCase_def)

lemma find_cong_set: "(\<And>x. x \<in> set xs \<Longrightarrow> P x = Q x) \<Longrightarrow> find P xs = find Q xs"
  by (induction xs) auto

lemma matcher_eq_spec:
  assumes "lowercase_keywords fs"
  shows "checkForKeywordMatch newsItem fs = spec_findMatch newsItem fs"
proof -
  have lc: "toLowerCase (keyword f) = keyword f" if "f \<in> set fs" for f
    using assms that by (simp add: lowercase_keywords_def list_all_iff)
  have "find (\<lambda>f. str_includes (toLowerCase (title newsItem)) (keyword f)
                \<or> str_includes (case body newsItem of None \<Rightarrow> [] | Some b \<Rightarrow> toLowerCase b) (keyword f)) fs
      = find (\<lambda>f. ci_substring (keyword f) (title newsItem)
                \<or> ci_substring (keyword f) (case body newsItem of None \<Rightarrow> [] | Some b \<Rightarrow> b)) fs"
    by (rule find_cong_set) (auto simp: ci_substring_def lc toLowerCase_Nil split: option.splits)
  then show ?thesis
    by (cases fs) (simp_all add: checkForKeywordMatch_def spec_findMatch_def keyword_loop_find Let_def del: keyword_loop.simps)
qed

lemma find_matched_eq_check: "findMatchedKeyword newsItem fs = checkForKeywordMatch newsItem fs"
  by (simp add: findMatchedKeyword_def checkForKeywordMatch_def)


text \<open>
  Claim C9, as stated, fails: only the title and body are lower-cased, the keyword is
  compared as stored. For the keyword \<open>BTC\<close> and the title \<open>BTC rallies\<close> a
  case-insensitive search finds the keyword, the code returns no match.
\<close>

theorem keyword_match_counterexample:
  "checkForKeywordMatch
     \<lparr>item_id = ''a'', title = ''BTC rallies'', body = None, source = ''News'', url = None,
      time = 0, suggestions = None, icon = None, image_url = None, info = None,
      isHighlighted = None, requireInteraction = None, coin_of = None,
      matchedKeyword = None, newsSource = Some tree\<rparr>
     [\<lparr>kw_id = ''1'', keyword = ''BTC''\<rparr>] = None
   \<and> spec_findMatch
     \<lparr>item_id = ''a'', title = ''BTC rallies'', body = None, source = ''News'', url = None,
      time = 0, suggestions = None, icon = None, image_url = None, info = None,
      isHighlighted = None, requireInteraction = None, coin_of = None,
      matchedKeyword = None, newsSource = Some tree\<rparr>
     [\<lparr>kw_id = ''1'', keyword = ''BTC''\<rparr>] = Some ''BTC''"
  by code_simp

text \<open>
  Claim C9, amended. For every event and every list of lower-cased filter keywords (the form
  in which \<^verbatim>\<open>addFilterKeyword\<close> stores them), both keyword-match functions perform a
  case-insensitive substring search of each keyword over title and body and return the
  first matching keyword in list order, and nothing when no keyword matches or the list is
  empty.
\<close>

theorem keyword_match_lowercase:
  assumes "lowercase_keywords fs"
  shows "checkForKeywordMatch newsItem fs = spec_findMatch newsItem fs
       \<and> findMatchedKeyword newsItem fs = spec_findMatch newsItem fs"
  using matcher_eq_spec[OF assms] by (simp add: find_matched_eq_check)

theorem keyword_match_lowercase_witness:
  "lowercase_keywords [\<lparr>kw_id = ''1'', keyword = ''etf''\<rparr>, \<lparr>kw_id = ''2'', keyword = ''bitcoin''\<rparr>]
   \<and> checkForKeywordMatch
     \<lparr>item_id = ''a'', title = ''Bitcoin ETF approved'', body = Some ''SEC decision'',
      source = ''News'', url = None, time = 0, suggestions = None, icon = None,
      image_url = None, info = None, isHighlighted = None, requireInteraction = None,
      coin_of = None, matchedKeyword = None, newsSource = Some tree\<rparr>
     [\<lparr>kw_id = ''1'', keyword = ''etf''\<rparr>, \<lparr>kw_id = ''2'', keyword = ''bitcoin''\<rparr>] = Some ''etf''
   \<and> spec_findMatch
     \<lparr>item_id = ''a'', title = ''Bitcoin ETF approved'', body = Some ''SEC decision'',
      source = ''News'', url = None, time = 0, suggestions = None, icon = None,
      image_url = None, info = None, isHighlighted = None, requireInteraction = None,
      coin_of = None, matchedKeyword = None, newsSource = Some tree\<rparr>
     [\<lparr>kw_id = ''1'', keyword = ''etf''\<rparr>, \<lparr>kw_id = ''2'', keyword = ''bitcoin''\<rparr>] = Some ''etf''"
proof -
  let ?x = "\<lparr>item_id = ''a'', title = ''Bitcoin ETF approved'', body = Some ''SEC decision'',
      source = ''News'', url = None, time = 0, suggestions = None, icon = None,
      image_url = None, info = None, isHighlighted = None, requireInteraction = None,
      coin_of = None, matchedKeyword = None, newsSource = Some tree\<rparr>"
  let ?fs = "[\<lparr>kw_id = ''1'', keyword = ''etf''\<rparr>, \<lparr>kw_id = ''2'', keyword = ''bitcoin''\<rparr>]"
  have h: "lowercase_keywords ?fs"
    by code_simp
  have v: "spec_findMatch ?x ?fs = Some ''etf''"
    by code_simp
  from keyword_match_lowercase[OF h, of ?x] have "checkForKeywordMatch ?x ?fs = spec_findMatch ?x ?fs"
    by (rule conjunct1)
  with h v show ?thesis by simp
qed

section \<open>Filter keywords: the store keeps them lower-cased\<close>

text \<open>
  Every keyword that \<^verbatim>\<open>addFilterKeyword\<close> stores is lower-cased, so a keyword list that
  starts empty and grows through \<^verbatim>\<open>addFilterKeyword\<close> satisfies \<open>lowercase_keywords\<close>.
\<close>

lemma toLowerCase_char_idem: "toLowerCase_char (toLowerCase_char c) = toLowerCase_char c"
proof (cases "65 \<le> (of_char c :: nat) \<and> (of_char c :: nat) \<le> 90")
  case True
  then have "(of_char c + 32 :: nat) mod 256 = of_char c + 32" by simp
  then have "(of_char (char_of (of_char c + 32 :: nat)) :: nat) = of_char c + 32" by simp
  with True show ?thesis by (simp add: toLowerCase_char_def Let_def)
next
  case False
  then show ?thesis by (auto simp: toLowerCase_char_def Let_def)
qed

lemma set_trim: "set (trim s) \<subseteq> set s"
proof -
  have "set (trim s) = set (dropWhile is_space (rev (dropWhile is_space s)))"
    by (simp add: trim_def)
  also have "\<dots> \<subseteq> set (rev (dropWhile is_space s))" by (rule set_dropWhileD[THEN subsetI])
  also have "\<dots> \<subseteq> set s" using set_dropWhileD[of _ is_space s] by auto
  finally show ?thesis .
qed

lemma normalized_lowercase: "toLowerCase (trim (toLowerCase k)) = trim (toLowerCase k)"
proof -
  have "toLowerCase_char c = c" if "c \<in> set (trim (toLowerCase k))" for c
  proof -
    from that set_trim have "c \<in> set (toLowerCase k)" by blast
    then obtain d where "c = toLowerCase_char d" by (auto simp: toLowerCase_def)
    then show ?thesis by (simp add: toLowerCase_char_idem)
  qed
  then show ?thesis unfolding toLowerCase_def by (simp add: map_idI)
qed

lemma addFilterKeyword_lowercase:
  "lowercase_keywords (filterKeywords state) \<Longrightarrow>
   lowercase_keywords (filterKeywords (addFilterKeyword n k state))"
  by (simp add: addFilterKeyword_def Let_def lowercase_keywords_def normalized_lowercase)

section \<open>Reconciled store: properties\<close>

lemma same_key_refl: "same_key x x"
  by (simp add: same_key_def)

lemma same_key_sym: "same_key x y \<Longrightarrow> same_key y x"
  by (auto simp: same_key_def)

lemma dedup_inv_iff:
  "dedup_inv xs \<longleftrightarrow> distinct xs \<and> (\<forall>x \<in> set xs. \<forall>y \<in> set xs. x \<noteq> y \<longrightarrow> \<not> same_key x y)"
proof (induction xs)
  case Nil
  then show ?case by simp
next
  case (Cons a xs)
  show ?case
  proof
    assume l: "dedup_inv (a # xs)"
    then have na: "\<And>y. y \<in> set xs \<Longrightarrow> \<not> same_key a y" and r: "dedup_inv xs"
      by (auto simp: list_ex_iff)
    from na have "a \<notin> set xs" using same_key_refl by blast
    moreover from r Cons.IH have "distinct xs"
      and p: "\<forall>x \<in> set xs. \<forall>y \<in> set xs. x \<noteq> y \<longrightarrow> \<not> same_key x y" by blast+
    ultimately have "distinct (a # xs)" by simp
    moreover have "\<forall>x \<in> set (a # xs). \<forall>y \<in> set (a # xs). x \<noteq> y \<longrightarrow> \<not> same_key x y"
      using na p by (auto dest: same_key_sym)
    ultimately show "distinct (a # xs) \<and>
        (\<forall>x \<in> set (a # xs). \<forall>y \<in> set (a # xs). x \<noteq> y \<longrightarrow> \<not> same_key x y)" by blast
  next
    assume r: "distinct (a # xs) \<and>
        (\<forall>x \<in> set (a # xs). \<forall>y \<in> set (a # xs). x \<noteq> y \<longrightarrow> \<not> same_key x y)"
    then have "\<And>y. y \<in> set xs \<Longrightarrow> \<not> same_key a y" by auto
    moreover from r Cons.IH have "dedup_inv xs" by auto
    ultimately show "dedup_inv (a # xs)" by (auto simp: list_ex_iff)
  qed
qed

lemma dedup_inv_index:
  "dedup_inv xs \<longleftrightarrow>
     (\<forall>i j. i < j \<and> j < length xs \<longrightarrow> \<not> same_key (xs ! i) (xs ! j))"
proof (induction xs)
  case Nil
  then show ?case by simp
next
  case (Cons a xs)
  have "(\<forall>i j. i < j \<and> j < length (a # xs) \<longrightarrow> \<not> same_key ((a # xs) ! i) ((a # xs) ! j))
      \<longleftrightarrow> (\<forall>j < length xs. \<not> same_key a (xs ! j))
          \<and> (\<forall>i j. i < j \<and> j < length xs \<longrightarrow> \<not> same_key (xs ! i) (xs ! j))"
    (is "?L \<longleftrightarrow> ?A \<and> ?B")
  proof
    assume l: ?L
    have ?A
    proof (intro allI impI)
      fix j assume "j < length xs"
      with l[rule_format, of 0 "Suc j"] show "\<not> same_key a (xs ! j)" by simp
    qed
    moreover have ?B
    proof (intro allI impI)
      fix i j assume "i < j \<and> j < length xs"
      with l[rule_format, of "Suc i" "Suc j"] show "\<not> same_key (xs ! i) (xs ! j)" by simp
    qed
    ultimately show "?A \<and> ?B" by blast
  next
    assume r: "?A \<and> ?B"
    show ?L
    proof (intro allI impI)
      fix i j assume ij: "i < j \<and> j < length (a # xs)"
      then obtain j' where j: "j = Suc j'" by (cases j) auto
      show "\<not> same_key ((a # xs) ! i) ((a # xs) ! j)"
      proof (cases i)
        case 0
        with r ij j show ?thesis by simp
      next
        case (Suc i')
        with r ij j show ?thesis by simp
      qed
    qed
  qed
  moreover have "(\<forall>j < length xs. \<not> same_key a (xs ! j)) \<longleftrightarrow> \<not> list_ex (same_key a) xs"
    by (metis in_set_conv_nth list_ex_iff)
  ultimately show ?case using Cons.IH by simp
qed

lemma dedup_inv_sort_take:
  assumes "dedup_inv xs"
  shows "dedup_inv (take n (sort_key f xs))"
proof -
  from assms have d: "distinct xs"
    and p: "\<forall>x \<in> set xs. \<forall>y \<in> set xs. x \<noteq> y \<longrightarrow> \<not> same_key x y"
    by (simp_all add: dedup_inv_iff)
  have "distinct (take n (sort_key f xs))" using d by simp
  moreover have "set (take n (sort_key f xs)) \<subseteq> set xs"
    using set_take_subset[of n "sort_key f xs"] by simp
  ultimately show ?thesis using p by (auto simp: dedup_inv_iff)
qed

lemma enhanced_keys:
  "item_id (enhancedNewsItem x k) = item_id x"
  "url (enhancedNewsItem x k) = url x"
  "title (enhancedNewsItem x k) = title x"
  "time (enhancedNewsItem x k) = time x"
  by (simp_all add: enhancedNewsItem_def Let_def)

lemma same_key_enhanced: "same_key y (enhancedNewsItem x k) = same_key y x"
  "same_key (enhancedNewsItem x k) y = same_key x y"
  by (simp_all add: same_key_def enhanced_keys)

lemma addNews_dropped: "dropped e x state \<Longrightarrow> addNews e x state = (state, [])"
  by (auto simp: addNews_def dropped_def Let_def)

lemma addNews_inserted:
  "\<not> dropped e x state \<Longrightarrow>
   news (fst (addNews e x state)) =
     take 100 (sort_key (\<lambda>x. - time x)
       (enhancedNewsItem (with_defaults e x)
          (checkForKeywordMatch (with_defaults e x) (filterKeywords state)) # news state))"
  by (auto simp: addNews_def dropped_def Let_def)

lemma addNews_preserves_dedup:
  assumes "dedup_inv (news state)"
  shows "dedup_inv (news (fst (addNews e x state)))"
proof (cases "dropped e x state")
  case True
  with assms show ?thesis by (simp add: addNews_dropped)
next
  case False
  then have "\<not> list_ex (\<lambda>item. same_key item (with_defaults e x)) (news state)"
    by (simp add: dropped_def)
  then have "\<not> list_ex (same_key (enhancedNewsItem (with_defaults e x) k)) (news state)" for k
    using same_key_sym by (auto simp: list_ex_iff same_key_enhanced)
  with assms have "dedup_inv (enhancedNewsItem (with_defaults e x) k # news state)" for k
    by simp
  then show ?thesis
    unfolding addNews_inserted[OF False] by (rule dedup_inv_sort_take)
qed

lemma addNews_seq_preserves_dedup:
  "dedup_inv (news state) \<Longrightarrow> dedup_inv (news (addNews_seq ops state))"
proof (induction ops arbitrary: state)
  case Nil
  then show ?case by simp
next
  case (Cons a ops)
  obtain e x where a: "a = (e, x)" by (cases a)
  from Cons.prems have "dedup_inv (news (fst (addNews e x state)))"
    by (rule addNews_preserves_dedup)
  from Cons.IH[OF this] show ?case by (simp add: a)
qed

lemma isTwitter_defaults: "isTwitterOrXPost (with_defaults e x) = isTwitterOrXPost x"
  by (simp add: isTwitterOrXPost_def with_defaults_def Let_def)


lemma str_includes_at: "str_includes t ''@'' \<longleftrightarrow> CHR ''@'' \<in> set t"
  by (induction t) auto

lemma upper_fix_iff: "toUpperCase t = t \<longleftrightarrow> list_all (\<lambda>c. toUpperCase_char c = c) t"
  by (induction t) (auto simp: toUpperCase_def)

lemma computed_highlight_spec:
  "computed_highlight x (checkForKeywordMatch x fs) = spec_highlighted x fs"
  by (auto simp: computed_highlight_def spec_highlighted_def upper_fix_iff list_ex_iff
      split: option.splits)

lemma enhanced_eq_spec:
  "enhancedNewsItem x (checkForKeywordMatch x fs) = spec_enhanced x fs"
  by (simp add: enhancedNewsItem_def spec_enhanced_def computed_highlight_spec Let_def)

lemma sorted_desc_sort_key:
  "sorted_wrt (\<lambda>a b. time b \<le> time a) (sort_key (\<lambda>y. - time y) xs)"
proof -
  have "sorted (map (\<lambda>y. - time y) (sort_key (\<lambda>y. - time y) xs))"
    by (rule sorted_sort_key)
  then show ?thesis by (simp add: sorted_map)
qed

lemma digits_chars: "c \<in> set (digits n) \<Longrightarrow> (of_char c :: nat) < 58"
proof (induction n rule: digits.induct)
  case (1 n)
  show ?case
  proof (cases "n < 10")
    case True
    with "1.prems" have "c = char_of (48 + n)" by (subst (asm) digits.simps) simp
    with True show ?thesis by simp
  next
    case False
    with "1.prems" have "c \<in> set (digits (n div 10)) \<or> c = char_of (48 + n mod 10)"
      by (subst (asm) digits.simps) auto
    then show ?thesis
    proof
      assume "c \<in> set (digits (n div 10))"
      with "1.IH"[OF False] show ?thesis .
    next
      assume c: "c = char_of (48 + n mod 10)"
      have "n mod 10 < 10" by simp
      then have "(48 + n mod 10) mod 256 = 48 + n mod 10" by simp
      with c show ?thesis by simp
    qed
  qed
qed

lemma digits_not_new: "digits k \<noteq> ''new''"
proof
  assume "digits k = ''new''"
  then have "CHR ''n'' \<in> set (digits k)" by simp
  from digits_chars[OF this] show False by simp
qed

lemma not_dropped_store_of:
  "\<not> dropped e (plain_item ''new'' ''breaking'' 1000) (store_of n)"
proof -
  have wd: "with_defaults e (plain_item ''new'' ''breaking'' 1000) = plain_item ''new'' ''breaking'' 1000"
    by (simp add: with_defaults_def plain_item_def)
  have "\<not> isTwitterOrXPost (plain_item ''new'' ''breaking'' 1000)"
    by (simp add: isTwitterOrXPost_def plain_item_def)
  moreover have "\<not> same_key (plain_item (digits k) [] (int k)) (plain_item ''new'' ''breaking'' 1000)" for k
    using digits_not_new by (simp add: same_key_def plain_item_def)
  then have "\<not> list_ex (\<lambda>item. same_key item (plain_item ''new'' ''breaking'' 1000)) (news (store_of n))"
    by (auto simp: store_of_def list_ex_iff)
  moreover have "source (plain_item ''new'' ''breaking'' 1000) \<noteq> ''api''"
    by (simp add: plain_item_def)
  ultimately show ?thesis by (simp add: dropped_def wd)
qed

lemma len_store: "length (news (store_of n)) = n"
  by (simp add: store_of_def)


text \<open>
  Claim C1. Every sequence of \<^verbatim>\<open>addNews\<close> insertions keeps the dedup invariant (from any
  store that satisfies it, in particular from the empty store): no two entries share an
  \<^verbatim>\<open>_id\<close>, a non-empty \<^verbatim>\<open>url\<close> or a non-empty \<^verbatim>\<open>title\<close>. And whenever the
  inserted item (with its id assigned) matches a stored item on one of the three keys,
  \<^verbatim>\<open>addNews\<close> returns the state unchanged and schedules no notification.
  By \<open>dedup_inv_index\<close> the invariant says that no two positions \<open>i < j\<close> of the list
  hold entries with a common key.
\<close>

theorem addNews_dedup_invariant:
  "(dedup_inv (news state) \<longrightarrow> dedup_inv (news (addNews_seq ops state)))
   \<and> dedup_inv (news (addNews_seq ops empty_store))
   \<and> (list_ex (\<lambda>item. same_key item (with_defaults e x)) (news state) \<longrightarrow>
        addNews e x state = (state, []))"
proof -
  have "dedup_inv (news empty_store)" by (simp add: empty_store_def)
  then have "dedup_inv (news (addNews_seq ops empty_store))"
    by (rule addNews_seq_preserves_dedup)
  moreover have "addNews e x state = (state, [])"
    if "list_ex (\<lambda>item. same_key item (with_defaults e x)) (news state)"
    using that by (intro addNews_dropped) (simp add: dropped_def)
  ultimately show ?thesis using addNews_seq_preserves_dedup by blast
qed

text \<open>
  The scenario of the specification: an event with id \<open>x\<close>, then an event with another id
  and the same url, leaves one entry in the store.
\<close>

theorem addNews_dedup_invariant_witness:
  "dedup_inv (news (fst (addNews \<lparr>now = 1, rnd = ''r''\<rparr>
        ((plain_item ''x'' ''first'' 10)\<lparr>url := Some ''https://e.org/a''\<rparr>) empty_store)))
   \<and> list_ex (\<lambda>item. same_key item (with_defaults \<lparr>now = 2, rnd = ''s''\<rparr>
        ((plain_item ''y'' ''second'' 20)\<lparr>url := Some ''https://e.org/a''\<rparr>)))
        (news (fst (addNews \<lparr>now = 1, rnd = ''r''\<rparr>
        ((plain_item ''x'' ''first'' 10)\<lparr>url := Some ''https://e.org/a''\<rparr>) empty_store)))
   \<and> length (news (addNews_seq
        [(\<lparr>now = 1, rnd = ''r''\<rparr>, (plain_item ''x'' ''first'' 10)\<lparr>url := Some ''https://e.org/a''\<rparr>),
         (\<lparr>now = 2, rnd = ''s''\<rparr>, (plain_item ''y'' ''second'' 20)\<lparr>url := Some ''https://e.org/a''\<rparr>)]
        empty_store)) = 1"
proof -
  let ?e1 = "\<lparr>now = 1, rnd = ''r''\<rparr>" and ?e2 = "\<lparr>now = 2, rnd = ''s''\<rparr>"
  let ?a = "(plain_item ''x'' ''first'' 10)\<lparr>url := Some ''https://e.org/a''\<rparr>"
  let ?b = "(plain_item ''y'' ''second'' 20)\<lparr>url := Some ''https://e.org/a''\<rparr>"
  let ?s1 = "fst (addNews ?e1 ?a empty_store)"
  have h0: "dedup_inv (news empty_store)" by (simp add: empty_store_def)
  have h1: "list_ex (\<lambda>item. same_key item (with_defaults ?e2 ?b)) (news ?s1)"
    by code_simp
  have l1: "length (news ?s1) = 1" by code_simp
  from addNews_dedup_invariant[of empty_store "[(?e1, ?a)]" ?e2 ?b] h0
  have d: "dedup_inv (news ?s1)" by simp
  from addNews_dedup_invariant[of ?s1 "[]" ?e2 ?b] h1
  have "addNews ?e2 ?b ?s1 = (?s1, [])" by blast
  then have "addNews_seq [(?e1, ?a), (?e2, ?b)] empty_store = ?s1" by simp
  with d h1 l1 show ?thesis by simp
qed

text \<open>
  Claim C2, as stated, fails: the stored flag is not only the highlight rule's result. An
  incoming event that already carries \<^verbatim>\<open>isHighlighted = true\<close> (the Source-A adapter
  copies the flag from the payload) stays highlighted although its title has lower-case
  letters, its source is not the priority source, it has no BTC/ETH tag and no keyword
  matches.
\<close>

theorem addNews_highlight_counterexample:
  "\<not> dropped \<lparr>now = 1, rnd = ''r''\<rparr> ((plain_item ''a'' ''quiet news'' 10)\<lparr>isHighlighted := Some True\<rparr>)
        empty_store
   \<and> \<not> spec_highlighted
        (with_defaults \<lparr>now = 1, rnd = ''r''\<rparr> ((plain_item ''a'' ''quiet news'' 10)\<lparr>isHighlighted := Some True\<rparr>))
        (filterKeywords empty_store)
   \<and> map isHighlighted (news (fst (addNews \<lparr>now = 1, rnd = ''r''\<rparr>
        ((plain_item ''a'' ''quiet news'' 10)\<lparr>isHighlighted := Some True\<rparr>) empty_store)))
      = [Some True]
   \<and> news (fst (addNews \<lparr>now = 1, rnd = ''r''\<rparr>
        ((plain_item ''a'' ''quiet news'' 10)\<lparr>isHighlighted := Some True\<rparr>) empty_store))
      \<noteq> take 100 (sort_key (\<lambda>y. - time y)
          (claimed_enhanced
             (with_defaults \<lparr>now = 1, rnd = ''r''\<rparr>
                ((plain_item ''a'' ''quiet news'' 10)\<lparr>isHighlighted := Some True\<rparr>))
             (filterKeywords empty_store) # news empty_store))"
  by code_simp

text \<open>
  Claim C2, amended. For every store state and every inserted event that no early return
  drops (API filter, Twitter/X filter, duplicate), the new list is the enhanced event
  prepended to the previous list, sorted by descending time (stable) and truncated to 100
  entries, where the enhanced event is highlighted when the rule fires (title fully upper
  case, or priority source, or a BTC/ETH tag, or a keyword match) and otherwise keeps the
  incoming flag, and carries the incoming non-empty \<^verbatim>\<open>matchedKeyword\<close> or else the
  matcher's result. Hence the list is sorted by time descending, has at most 100 entries,
  and every entry that is cut off is at most as recent as every entry that is kept.
\<close>

theorem addNews_insert_sorted_bounded:
  assumes "\<not> dropped e x state"
  shows "news (fst (addNews e x state)) =
           take 100 (sort_key (\<lambda>y. - time y)
             (spec_enhanced (with_defaults e x) (filterKeywords state) # news state))
       \<and> sorted_wrt (\<lambda>a b. time b \<le> time a) (news (fst (addNews e x state)))
       \<and> length (news (fst (addNews e x state))) \<le> 100
       \<and> (\<forall>a \<in> set (news (fst (addNews e x state))).
            \<forall>b \<in> set (drop 100 (sort_key (\<lambda>y. - time y)
                 (spec_enhanced (with_defaults e x) (filterKeywords state) # news state))).
              time b \<le> time a)"
proof -
  let ?full = "sort_key (\<lambda>y. - time y)
      (spec_enhanced (with_defaults e x) (filterKeywords state) # news state)"
  have eq: "news (fst (addNews e x state)) = take 100 ?full"
    unfolding addNews_inserted[OF assms] enhanced_eq_spec ..
  have s: "sorted_wrt (\<lambda>a b. time b \<le> time a) ?full"
    by (rule sorted_desc_sort_key)
  then have "sorted_wrt (\<lambda>a b. time b \<le> time a) (take 100 ?full @ drop 100 ?full)"
    by (simp only: append_take_drop_id)
  then have st: "sorted_wrt (\<lambda>a b. time b \<le> time a) (take 100 ?full)"
    and ev: "\<forall>a \<in> set (take 100 ?full). \<forall>b \<in> set (drop 100 ?full). time b \<le> time a"
    unfolding sorted_wrt_append by blast+
  have len: "length (take 100 ?full) \<le> 100" by simp
  from st ev len show ?thesis unfolding eq by blast
qed

text \<open>
  A store of 100 events and a newer one: the list stays at 100 entries and one entry, the
  oldest, is cut off.
\<close>

theorem addNews_insert_sorted_bounded_witness:
  "\<not> dropped \<lparr>now = 5, rnd = ''abc''\<rparr> (plain_item ''new'' ''breaking'' 1000) (store_of 100)
   \<and> length (news (fst (addNews \<lparr>now = 5, rnd = ''abc''\<rparr> (plain_item ''new'' ''breaking'' 1000)
        (store_of 100)))) = 100
   \<and> length (drop 100 (sort_key (\<lambda>y. - time y)
        (spec_enhanced (with_defaults \<lparr>now = 5, rnd = ''abc''\<rparr> (plain_item ''new'' ''breaking'' 1000))
           (filterKeywords (store_of 100)) # news (store_of 100)))) = 1
   \<and> sorted_wrt (\<lambda>a b. time b \<le> time a)
        (news (fst (addNews \<lparr>now = 5, rnd = ''abc''\<rparr> (plain_item ''new'' ''breaking'' 1000)
        (store_of 100))))"
proof -
  let ?e = "\<lparr>now = 5, rnd = ''abc''\<rparr>" and ?x = "plain_item ''new'' ''breaking'' 1000"
  let ?full = "sort_key (\<lambda>y. - time y)
        (spec_enhanced (with_defaults ?e ?x) (filterKeywords (store_of 100)) # news (store_of 100))"
  let ?news' = "news (fst (addNews ?e ?x (store_of 100)))"
  have h: "\<not> dropped ?e ?x (store_of 100)" by (rule not_dropped_store_of)
  have l: "length ?full = 101"
    by (simp only: length_sort list.size len_store)
  from addNews_insert_sorted_bounded[OF h]
  have eq: "?news' = take 100 ?full" and st: "sorted_wrt (\<lambda>a b. time b \<le> time a) ?news'"
    by blast+
  have l1: "length ?news' = 100"
    unfolding eq length_take l by simp
  have l2: "length (drop 100 ?full) = 1"
    unfolding length_drop l by simp
  from h l1 l2 st show ?thesis by blast
qed

text \<open>
  Claim C10. When \<^verbatim>\<open>showTwitterPosts\<close> is off, an item classified as a Twitter/X post
  (source \<open>X\<close> or \<open>Twitter\<close>, or a non-empty \<^verbatim>\<open>twitterId\<close> together with an \<open>@\<close> in
  the title) leaves the state unchanged and schedules no notification, whatever the store
  holds and whatever the keywords are.
\<close>

theorem addNews_twitter_filter:
  assumes "\<not> showTwitterPosts state"
    and "source x = ''X'' \<or> source x = ''Twitter'' \<or>
         ((\<exists>i. info x = Some i \<and> truthy (twitterId i)) \<and> CHR ''@'' \<in> set (title x))"
  shows "addNews e x state = (state, [])"
proof -
  from assms(2) have "isTwitterOrXPost x"
    by (auto simp: isTwitterOrXPost_def str_includes_at)
  then have "isTwitterOrXPost (with_defaults e x)" by (simp add: isTwitter_defaults)
  with assms(1) have "dropped e x state" by (simp add: dropped_def)
  then show ?thesis by (rule addNews_dropped)
qed

theorem addNews_twitter_filter_witness:
  "\<not> showTwitterPosts (empty_store\<lparr>showTwitterPosts := False, filterKeywords := [\<lparr>kw_id = ''1'', keyword = ''btc''\<rparr>]\<rparr>)
   \<and> source ((plain_item ''t1'' ''btc to the moon'' 10)\<lparr>source := ''X''\<rparr>) = ''X''
   \<and> addNews \<lparr>now = 1, rnd = ''r''\<rparr> ((plain_item ''t1'' ''btc to the moon'' 10)\<lparr>source := ''X''\<rparr>)
        (empty_store\<lparr>showTwitterPosts := False, filterKeywords := [\<lparr>kw_id = ''1'', keyword = ''btc''\<rparr>]\<rparr>)
      = (empty_store\<lparr>showTwitterPosts := False, filterKeywords := [\<lparr>kw_id = ''1'', keyword = ''btc''\<rparr>]\<rparr>, [])"
proof -
  let ?s = "empty_store\<lparr>showTwitterPosts := False, filterKeywords := [\<lparr>kw_id = ''1'', keyword = ''btc''\<rparr>]\<rparr>"
  let ?x = "(plain_item ''t1'' ''btc to the moon'' 10)\<lparr>source := ''X''\<rparr>"
  have h1: "\<not> showTwitterPosts ?s" by (simp add: empty_store_def)
  have h2: "source ?x = ''X''" by (simp add: plain_item_def)
  then have h2': "source ?x = ''X'' \<or> source ?x = ''Twitter'' \<or>
         ((\<exists>i. info ?x = Some i \<and> truthy (twitterId i)) \<and> CHR ''@'' \<in> set (title ?x))"
    by (rule disjI1)
  from addNews_twitter_filter[OF h1 h2'] h1 h2 show ?thesis by blast
qed

section \<open>Notification dispatcher: properties\<close>





text \<open>
  An expiry timer outlives a clearing of the cache. A dispatch at time 0, the app going to
  the background, and a second dispatch at 2000 ms leave the timer of the first dispatch
  pending; it deletes the id at 60000 ms, and a request at 60500 ms, less than 60 seconds
  after the second dispatch, is sent again.
\<close>

lemma stale_expiry_timer_resends:
  "length (sink_calls (process_all
     [Notify (granted_at 0) (plain_item ''n1'' ''btc up'' 5) ''btc'',
      AppState ''background'',
      Notify (granted_at 2000) (plain_item ''n1'' ''btc up'' 5) ''btc'',
      Notify (granted_at 60500) (plain_item ''n1'' ''btc up'' 5) ''btc'']
     (ready_service android ''granted''))) = 3"
  by (simp add: scheduleNotification_def showMobileNotification_def count_success_def
      run_timers_def ready_service_def granted_at_def
      appStateChanged_def notificationId_def plain_item_def Let_def
      NOTIFICATION_DEDUPE_WINDOW_def)

text \<open>
  On the web the guard of \<^verbatim>\<open>showWebNotification\<close> reads the permission cached at
  initialisation: with \<^verbatim>\<open>default\<close> cached, a request is counted as skipped and nothing
  is sent although \<^verbatim>\<open>getPermissionStatus()\<close> resolves to \<^verbatim>\<open>granted\<close>.
\<close>

lemma web_guard_skips:
  "sink_calls (process (Notify (granted_at 0) (plain_item ''n1'' ''btc up'' 5) ''btc'')
     (ready_service web ''default'')) = []
   \<and> skipped (notificationStats (process (Notify (granted_at 0) (plain_item ''n1'' ''btc up'' 5) ''btc'')
     (ready_service web ''default''))) = 1"
  by (simp add: scheduleNotification_def showWebNotification_def skip_def
      run_timers_def ready_service_def granted_at_def
      notificationId_def plain_item_def Let_def NOTIFICATION_DEDUPE_WINDOW_def)




section \<open>Format adapters: properties\<close>

lemma try_catch_total: "\<exists>r. try_catch m (\<lambda>error. Inr d) = Inr r"
  by (cases m) (simp_all add: try_catch_def)

lemma try_catch_error: "m = Inl err \<Longrightarrow> try_catch m (\<lambda>error. Inr d) = Inr d"
  by (simp add: try_catch_def)

lemma error_item_fields:
  "get (error_item src e) ''title'' = JStr ''Error processing news item''"
  "get (error_item src e) ''_id'' = JStr (''error-'' @ src @ ''-'' @ digits (now_error_id e))"
  "get (error_item src e) ''time'' = JNum (int (now_error_time e))"
  by (simp_all add: error_item_def)

lemma tree_not_object: "not_an_object item \<Longrightarrow> convertTreeFormat e item = Inr (error_item ''tree'' e)"
  by (simp add: convertTreeFormat_def convertTreeFormat_try_def try_catch_def)

lemma phoenix_not_object: "not_an_object item \<Longrightarrow> convertPhoenixFormat e item = Inr (error_item ''phoenix'' e)"
  by (simp add: convertPhoenixFormat_def convertPhoenixFormat_try_def try_catch_def)

lemma decode_manual_Nil: "decode_manual [] = []"
  by (simp add: decode_manual_def replace_all_def)

lemma decode_native_str:
  "dom_decode e = None \<Longrightarrow> decodeHtmlEntities e (JStr s) = Inr (decode_manual s)"
  by (cases "s = []") (simp_all add: decodeHtmlEntities_def decode_fallback_def decode_manual_Nil)

lemma get_append_new:
  "k \<notin> fst ` set kvs \<Longrightarrow> get (set_prop (JObj kvs) k v) k = v"
proof -
  assume "k \<notin> fst ` set kvs"
  then have "map_of kvs k = None" by (simp add: map_of_eq_None_iff)
  then show ?thesis using \<open>k \<notin> fst ` set kvs\<close> by (simp add: map_add_def)
qed

lemma phoenix_twitter_is_object:
  "phoenix_isTwitterOrXPost item \<Longrightarrow> \<not> not_an_object item"
  by (cases item) (auto simp: phoenix_isTwitterOrXPost_def not_an_object_def)

lemma indexOf_nonempty: "indexOf b p = Some i \<Longrightarrow> p \<noteq> [] \<Longrightarrow> b \<noteq> []"
  by (cases b) auto

lemma quoted_user_truthy: "js_truthy (quoted_user_of u c)"
  by (simp add: quoted_user_of_def split: option.splits prod.splits)

text \<open>
  On a string, \<^verbatim>\<open>decodeHtmlEntities\<close> returns in every environment; without a document
  the result is that of the replacement chain.
\<close>

lemma decode_str_total:
  "\<exists>t. decodeHtmlEntities e (JStr s) = Inr t \<and> (dom_decode e = None \<longrightarrow> t = decode_manual s)"
  by (cases s)
     (auto simp: decodeHtmlEntities_def decode_fallback_def decode_manual_Nil split: option.splits)

lemma phoenix_info_no_quoted: "get (phoenix_info item) ''quotedUser'' = JUndefined"
  by (simp add: phoenix_info_def)

lemma phoenix_quote_try:
  assumes tw: "phoenix_isTwitterOrXPost item"
    and b: "get item ''body'' = JStr b"
    and i: "indexOf b quoteMarker = Some i"
    and j: "indexOf (drop (i + length quoteMarker) b) '')'' = Some j"
  shows "\<exists>r t. convertPhoenixFormat_try e item = Inr r
       \<and> decodeHtmlEntities e (JStr (trim (take i b))) = Inr t
       \<and> (dom_decode e = None \<longrightarrow> t = decode_manual (trim (take i b)))
       \<and> get r ''title'' = JStr (cleanupTweetContent t)
       \<and> get r ''body'' = JStr []
       \<and> get (get r ''info'') ''quotedUser'' =
           (if js_truthy (get item ''isQuote'')
            then quoted_user_of (take (j + 1) (drop (i + length quoteMarker) b))
                   (trim (drop (j + 1) (drop (i + length quoteMarker) b)))
            else JUndefined)"
proof -
  define qc where "qc = drop (i + length quoteMarker) b"
  define qu where "qu = quoted_user_of (take (j + 1) qc) (trim (drop (j + 1) qc))"
  define mc where "mc = trim (take i b)"
  define info' where "info' = (if js_truthy (get item ''isQuote'')
      then set_prop (phoenix_info item) ''quotedUser'' qu else phoenix_info item)"
  from decode_str_total[of e mc] obtain t where
    dt: "decodeHtmlEntities e (JStr mc) = Inr t"
    and dn: "dom_decode e = None \<longrightarrow> t = decode_manual mc" by (elim exE conjE)
  have ne: "b \<noteq> []" using indexOf_nonempty[OF i] by (simp add: quoteMarker_def)
  have obj: "\<not> not_an_object item" by (rule phoenix_twitter_is_object[OF tw])
  have pq: "parse_quote b = (JStr mc, qu)"
    using i j by (simp add: parse_quote_def Let_def qc_def qu_def mc_def)
  have qw: "quote_or_whole (JStr b) = (JStr mc, qu)"
    by (simp add: quote_or_whole_def quote_block_def pq)
  have body0: "js_or (get item ''body'') (JStr []) = JStr b"
    using b ne by (simp add: js_or_def)
  have tq: "js_truthy qu" unfolding qu_def by (rule quoted_user_truthy)
  have att: "phoenix_attach_quoted e item qu (phoenix_info item) = Inr info'"
    using tq by (simp add: phoenix_attach_quoted_def info'_def)
  have gq: "get (set_prop (phoenix_info item) ''quotedUser'' qu) ''quotedUser'' = qu"
    unfolding phoenix_info_def by (rule get_append_new) simp
  have gi: "get info' ''quotedUser'' = (if js_truthy (get item ''isQuote'') then qu else JUndefined)"
    by (simp add: info'_def gq phoenix_info_no_quoted del: set_prop.simps)
  have db: "decodeHtmlEntities e (JStr []) = Inr []"
    by (simp add: decodeHtmlEntities_def)
  have "\<exists>r. convertPhoenixFormat_try e item = Inr r
       \<and> get r ''title'' = JStr (cleanupTweetContent t)
       \<and> get r ''body'' = JStr []
       \<and> get (get r ''info'') ''quotedUser'' =
            (if js_truthy (get item ''isQuote'') then qu else JUndefined)"
    using obj tw ne
    by (simp add: convertPhoenixFormat_try_def Let_def body0 qw dt db then_e_def att
        del: set_prop.simps)
       (simp add: gi)
  then obtain r where r1: "convertPhoenixFormat_try e item = Inr r"
    and r2: "get r ''title'' = JStr (cleanupTweetContent t)"
    and r3: "get r ''body'' = JStr []"
    and r4: "get (get r ''info'') ''quotedUser'' =
            (if js_truthy (get item ''isQuote'') then qu else JUndefined)"
    by (elim exE conjE)
  have all: "convertPhoenixFormat_try e item = Inr r
       \<and> decodeHtmlEntities e (JStr mc) = Inr t
       \<and> (dom_decode e = None \<longrightarrow> t = decode_manual mc)
       \<and> get r ''title'' = JStr (cleanupTweetContent t)
       \<and> get r ''body'' = JStr []
       \<and> get (get r ''info'') ''quotedUser'' =
            (if js_truthy (get item ''isQuote'') then qu else JUndefined)"
    using r1 dt dn r2 r3 r4 by (intro conjI)
  show ?thesis
    by (rule exI[of _ r], rule exI[of _ t]) (rule all[unfolded qu_def qc_def mc_def])
qed


text \<open>
  Claim C3, as stated, fails in one point: the title of the placeholder event is
  \<open>Error processing news item\<close>, not \<open>Error processing item\<close>. The payload
  \<^verbatim>\<open>null\<close> shows it.
\<close>

theorem adapters_placeholder_counterexample:
  "convertTreeFormat native_env JNull = Inr (error_item ''tree'' native_env)
   \<and> get (error_item ''tree'' native_env) ''title'' \<noteq> JStr ''Error processing item''"
  by code_simp

text \<open>
  Claim C3, amended. For every raw payload and every environment, each adapter returns an
  event and never raises. Whenever its \<^verbatim>\<open>try\<close> block raises, in particular for every
  payload that is not an object, it returns the placeholder event: title
  \<open>Error processing news item\<close>, the synthetic id \<open>error-<source>-<Date.now()>\<close> and
  the current time.
\<close>

theorem adapters_total:
  "(\<exists>r. convertTreeFormat e item = Inr r)
   \<and> (\<exists>r. convertPhoenixFormat e item = Inr r)
   \<and> (not_an_object item \<longrightarrow>
         convertTreeFormat e item = Inr (error_item ''tree'' e)
         \<and> convertPhoenixFormat e item = Inr (error_item ''phoenix'' e))
   \<and> (convertTreeFormat_try e item = Inl err \<longrightarrow>
         convertTreeFormat e item = Inr (error_item ''tree'' e))
   \<and> (convertPhoenixFormat_try e item = Inl err \<longrightarrow>
         convertPhoenixFormat e item = Inr (error_item ''phoenix'' e))
   \<and> get (error_item src e) ''title'' = JStr ''Error processing news item''
   \<and> get (error_item src e) ''_id'' = JStr (''error-'' @ src @ ''-'' @ digits (now_error_id e))
   \<and> get (error_item src e) ''time'' = JNum (int (now_error_time e))"
  using try_catch_total[of "convertTreeFormat_try e item" "error_item ''tree'' e"]
    try_catch_total[of "convertPhoenixFormat_try e item" "error_item ''phoenix'' e"]
    tree_not_object[of item e] phoenix_not_object[of item e]
    try_catch_error[of "convertTreeFormat_try e item" err "error_item ''tree'' e"]
    try_catch_error[of "convertPhoenixFormat_try e item" err "error_item ''phoenix'' e"]
    error_item_fields[of src e]
  unfolding convertTreeFormat_def convertPhoenixFormat_def by blast

text \<open>
  Two malformed payloads: the text \<open>pong\<close>, which is not an object, and an object whose
  title is a number, on which \<^verbatim>\<open>decodeHtmlEntities\<close> raises a \<^verbatim>\<open>TypeError\<close> when
  there is no document.
\<close>

theorem adapters_total_witness:
  "not_an_object (JStr ''pong'')
   \<and> convertTreeFormat native_env (JStr ''pong'') = Inr (error_item ''tree'' native_env)
   \<and> convertPhoenixFormat native_env (JStr ''pong'') = Inr (error_item ''phoenix'' native_env)
   \<and> convertTreeFormat_try native_env (JObj [(''title'', JNum 5)]) = Inl TypeError
   \<and> convertPhoenixFormat_try native_env (JObj [(''title'', JNum 5)]) = Inl TypeError
   \<and> convertTreeFormat native_env (JObj [(''title'', JNum 5)]) = Inr (error_item ''tree'' native_env)
   \<and> convertPhoenixFormat native_env (JObj [(''title'', JNum 5)]) = Inr (error_item ''phoenix'' native_env)
   \<and> get (error_item ''tree'' native_env) ''_id'' = JStr ''error-tree-13''"
proof -
  have h1: "not_an_object (JStr ''pong'')" by code_simp
  have h2: "convertTreeFormat_try native_env (JObj [(''title'', JNum 5)]) = Inl TypeError"
    by code_simp
  have h3: "convertPhoenixFormat_try native_env (JObj [(''title'', JNum 5)]) = Inl TypeError"
    by code_simp
  have h4: "get (error_item ''tree'' native_env) ''_id'' = JStr ''error-tree-13''"
    by code_simp
  from adapters_total[of native_env "JStr ''pong''"] h1
  have a: "convertTreeFormat native_env (JStr ''pong'') = Inr (error_item ''tree'' native_env)"
    and b: "convertPhoenixFormat native_env (JStr ''pong'') = Inr (error_item ''phoenix'' native_env)"
    by blast+
  from adapters_total[of native_env "JObj [(''title'', JNum 5)]" TypeError] h2 h3
  have c: "convertTreeFormat native_env (JObj [(''title'', JNum 5)]) = Inr (error_item ''tree'' native_env)"
    and d: "convertPhoenixFormat native_env (JObj [(''title'', JNum 5)]) = Inr (error_item ''phoenix'' native_env)"
    by blast+
  from h1 h2 h3 h4 a b c d show ?thesis by blast
qed

text \<open>
  Claim C4, as stated, fails: the quoted user is attached only when the payload's
  \<^verbatim>\<open>isQuote\<close> flag is truthy. A Twitter payload with the body of the scenario and no
  \<^verbatim>\<open>isQuote\<close> gets the title \<open>hello\<close> and no quoted user.
\<close>

theorem phoenix_quote_counterexample:
  "phoenix_isTwitterOrXPost (quote_payload JUndefined)
   \<and> get (quote_payload JUndefined) ''body'' = JStr ''hello &gt;&gt;QUOTE Alice (@alice) nice''
   \<and> \<not> isl (convertPhoenixFormat native_env (quote_payload JUndefined))
   \<and> get (projr (convertPhoenixFormat native_env (quote_payload JUndefined))) ''title'' = JStr ''hello''
   \<and> get (get (projr (convertPhoenixFormat native_env (quote_payload JUndefined))) ''info'')
        ''quotedUser'' = JUndefined"
  by code_simp

text \<open>
  Claim C4, amended. In every environment, for a Source-B Twitter/X payload whose body is
  a string that holds the quote marker and, after it, a closing parenthesis: the body is
  split at the marker into \<open>mainContent\<close> (trimmed) and \<open>quoteContent\<close>; the title is
  \<open>mainContent\<close>, entity-decoded by \<^verbatim>\<open>decodeHtmlEntities\<close> (without a document: by its
  replacement chain) and cleaned by \<^verbatim>\<open>cleanupTweetContent\<close>, and the body is empty.
  When the payload's \<^verbatim>\<open>isQuote\<close> flag is truthy, \<open>quoteContent\<close> is split after its
  first closing parenthesis into \<open>quotedUserInfo\<close> and the trimmed \<open>quotedText\<close>, which
  is the quoted user's text; the pattern \<open>Name (@handle)\<close> gives the quoted user's name
  and handle (the first \<open>@\<close> removed), and when it does not match the whole
  \<open>quotedUserInfo\<close> is the name and the handle is empty. When the flag is not truthy, no
  quoted user is attached. For the body \<open>hello &gt;&gt;QUOTE Alice (@alice) nice\<close> and no
  document this gives the title \<open>hello\<close> and, with a truthy flag, the quoted author
  \<open>Alice\<close> with handle \<open>alice\<close> and the quoted text \<open>nice\<close>.
\<close>

theorem phoenix_quote_split:
  assumes "phoenix_isTwitterOrXPost item"
    and "get item ''body'' = JStr b"
    and "indexOf b quoteMarker = Some i"
    and "indexOf (drop (i + length quoteMarker) b) '')'' = Some j"
  shows "\<exists>r t. convertPhoenixFormat e item = Inr r
       \<and> decodeHtmlEntities e (JStr (trim (take i b))) = Inr t
       \<and> (dom_decode e = None \<longrightarrow> t = decode_manual (trim (take i b)))
       \<and> get r ''title'' = JStr (cleanupTweetContent t)
       \<and> get r ''body'' = JStr []
       \<and> (if js_truthy (get item ''isQuote'')
          then get (get (get r ''info'') ''quotedUser'') ''text''
                 = JStr (trim (drop (j + 1) (drop (i + length quoteMarker) b)))
             \<and> (case username_match (take (j + 1) (drop (i + length quoteMarker) b)) of
                   Some (g1, g2) \<Rightarrow>
                     get (get (get r ''info'') ''quotedUser'') ''name'' = JStr (trim g1)
                     \<and> get (get (get r ''info'') ''quotedUser'') ''screen_name''
                          = JStr (remove_first CHR ''@'' (trim g2))
                 | None \<Rightarrow>
                     get (get (get r ''info'') ''quotedUser'') ''name''
                          = JStr (take (j + 1) (drop (i + length quoteMarker) b))
                     \<and> get (get (get r ''info'') ''quotedUser'') ''screen_name'' = JStr [])
          else get (get r ''info'') ''quotedUser'' = JUndefined)"
proof -
  from phoenix_quote_try[OF assms, of e] obtain r t where
    r: "convertPhoenixFormat_try e item = Inr r"
    and d: "decodeHtmlEntities e (JStr (trim (take i b))) = Inr t"
    and n: "dom_decode e = None \<longrightarrow> t = decode_manual (trim (take i b))"
    and t: "get r ''title'' = JStr (cleanupTweetContent t)"
    and b: "get r ''body'' = JStr []"
    and q: "get (get r ''info'') ''quotedUser'' =
           (if js_truthy (get item ''isQuote'')
            then quoted_user_of (take (j + 1) (drop (i + length quoteMarker) b))
                   (trim (drop (j + 1) (drop (i + length quoteMarker) b)))
            else JUndefined)"
    by (elim exE conjE)
  have c: "convertPhoenixFormat e item = Inr r"
    by (simp add: convertPhoenixFormat_def try_catch_def r)
  have parts: "get (quoted_user_of u x) ''text'' = JStr x
       \<and> (case username_match u of
             Some (g1, g2) \<Rightarrow>
               get (quoted_user_of u x) ''name'' = JStr (trim g1)
               \<and> get (quoted_user_of u x) ''screen_name'' = JStr (remove_first CHR ''@'' (trim g2))
           | None \<Rightarrow>
               get (quoted_user_of u x) ''name'' = JStr u
               \<and> get (quoted_user_of u x) ''screen_name'' = JStr [])" for u x
    by (simp add: quoted_user_of_def split: option.splits prod.splits)
  have u: "(if js_truthy (get item ''isQuote'')
          then get (get (get r ''info'') ''quotedUser'') ''text''
                 = JStr (trim (drop (j + 1) (drop (i + length quoteMarker) b)))
             \<and> (case username_match (take (j + 1) (drop (i + length quoteMarker) b)) of
                   Some (g1, g2) \<Rightarrow>
                     get (get (get r ''info'') ''quotedUser'') ''name'' = JStr (trim g1)
                     \<and> get (get (get r ''info'') ''quotedUser'') ''screen_name''
                          = JStr (remove_first CHR ''@'' (trim g2))
                 | None \<Rightarrow>
                     get (get (get r ''info'') ''quotedUser'') ''name''
                          = JStr (take (j + 1) (drop (i + length quoteMarker) b))
                     \<and> get (get (get r ''info'') ''quotedUser'') ''screen_name'' = JStr [])
          else get (get r ''info'') ''quotedUser'' = JUndefined)"
  proof (cases "js_truthy (get item ''isQuote'')")
    case True
    with q have "get (get r ''info'') ''quotedUser'' =
        quoted_user_of (take (j + 1) (drop (i + length quoteMarker) b))
          (trim (drop (j + 1) (drop (i + length quoteMarker) b)))" by simp
    then show ?thesis by (simp only: True if_True) (rule parts)
  next
    case False
    with q show ?thesis by simp
  qed
  have all: "convertPhoenixFormat e item = Inr r
       \<and> decodeHtmlEntities e (JStr (trim (take i b))) = Inr t
       \<and> (dom_decode e = None \<longrightarrow> t = decode_manual (trim (take i b)))
       \<and> get r ''title'' = JStr (cleanupTweetContent t)
       \<and> get r ''body'' = JStr []
       \<and> (if js_truthy (get item ''isQuote'')
          then get (get (get r ''info'') ''quotedUser'') ''text''
                 = JStr (trim (drop (j + 1) (drop (i + length quoteMarker) b)))
             \<and> (case username_match (take (j + 1) (drop (i + length quoteMarker) b)) of
                   Some (g1, g2) \<Rightarrow>
                     get (get (get r ''info'') ''quotedUser'') ''name'' = JStr (trim g1)
                     \<and> get (get (get r ''info'') ''quotedUser'') ''screen_name''
                          = JStr (remove_first CHR ''@'' (trim g2))
                 | None \<Rightarrow>
                     get (get (get r ''info'') ''quotedUser'') ''name''
                          = JStr (take (j + 1) (drop (i + length quoteMarker) b))
                     \<and> get (get (get r ''info'') ''quotedUser'') ''screen_name'' = JStr [])
          else get (get r ''info'') ''quotedUser'' = JUndefined)"
    using c d n t b u by (intro conjI)
  show ?thesis
    by (rule exI[of _ r], rule exI[of _ t]) (rule all)
qed

text \<open>
  The payload of the scenario without a document, with the flag set and without it.
\<close>

theorem phoenix_quote_split_witness:
  "phoenix_isTwitterOrXPost (quote_payload (JBool True))
   \<and> get (quote_payload (JBool True)) ''body'' = JStr ''hello &gt;&gt;QUOTE Alice (@alice) nice''
   \<and> phoenix_isTwitterOrXPost (quote_payload JUndefined)
   \<and> get (quote_payload JUndefined) ''body'' = JStr ''hello &gt;&gt;QUOTE Alice (@alice) nice''
   \<and> indexOf ''hello &gt;&gt;QUOTE Alice (@alice) nice'' quoteMarker = Some 6
   \<and> indexOf (drop (6 + length quoteMarker) ''hello &gt;&gt;QUOTE Alice (@alice) nice'') '')'' = Some 13
   \<and> js_truthy (get (quote_payload (JBool True)) ''isQuote'')
   \<and> \<not> js_truthy (get (quote_payload JUndefined) ''isQuote'')
   \<and> dom_decode native_env = None
   \<and> \<not> isl (convertPhoenixFormat native_env (quote_payload (JBool True)))
   \<and> get (projr (convertPhoenixFormat native_env (quote_payload (JBool True)))) ''title'' = JStr ''hello''
   \<and> get (projr (convertPhoenixFormat native_env (quote_payload (JBool True)))) ''body'' = JStr []
   \<and> get (get (get (projr (convertPhoenixFormat native_env (quote_payload (JBool True)))) ''info'')
        ''quotedUser'') ''name'' = JStr ''Alice''
   \<and> get (get (get (projr (convertPhoenixFormat native_env (quote_payload (JBool True)))) ''info'')
        ''quotedUser'') ''screen_name'' = JStr ''alice''
   \<and> get (get (get (projr (convertPhoenixFormat native_env (quote_payload (JBool True)))) ''info'')
        ''quotedUser'') ''text'' = JStr ''nice''
   \<and> \<not> isl (convertPhoenixFormat native_env (quote_payload JUndefined))
   \<and> get (projr (convertPhoenixFormat native_env (quote_payload JUndefined))) ''title'' = JStr ''hello''
   \<and> get (projr (convertPhoenixFormat native_env (quote_payload JUndefined))) ''body'' = JStr []
   \<and> get (get (projr (convertPhoenixFormat native_env (quote_payload JUndefined))) ''info'')
        ''quotedUser'' = JUndefined"
proof -
  let ?b = "''hello &gt;&gt;QUOTE Alice (@alice) nice''"
  let ?p = "quote_payload (JBool True)"
  let ?n = "quote_payload JUndefined"
  have h1: "dom_decode native_env = None" by (simp add: native_env_def)
  have h2: "phoenix_isTwitterOrXPost ?p" by code_simp
  have h3: "get ?p ''body'' = JStr ?b" by code_simp
  have h2n: "phoenix_isTwitterOrXPost ?n" by code_simp
  have h3n: "get ?n ''body'' = JStr ?b" by code_simp
  have h4: "indexOf ?b quoteMarker = Some 6" by code_simp
  have h5: "indexOf (drop (6 + length quoteMarker) ?b) '')'' = Some 13" by code_simp
  have h6: "js_truthy (get ?p ''isQuote'')" by code_simp
  have h6n: "\<not> js_truthy (get ?n ''isQuote'')" by code_simp
  have v0: "trim (take 6 ?b) = ''hello''" by code_simp
  have v1: "cleanupTweetContent (decode_manual ''hello'') = ''hello''" by code_simp
  have v2: "trim (drop (13 + 1) (drop (6 + length quoteMarker) ?b)) = ''nice''" by code_simp
  have v3: "username_match (take (13 + 1) (drop (6 + length quoteMarker) ?b)) = Some (''Alice'', ''@alice'')"
    by code_simp
  have v4: "trim ''Alice'' = ''Alice''" and v5: "remove_first CHR ''@'' (trim ''@alice'') = ''alice''"
    by code_simp+
  from phoenix_quote_split[OF h2 h3 h4 h5, of native_env, unfolded v0 v2 v3] h1 h6 obtain r where
    r: "convertPhoenixFormat native_env ?p = Inr r"
    and t: "get r ''title'' = JStr ''hello''"
    and b: "get r ''body'' = JStr []"
    and x: "get (get (get r ''info'') ''quotedUser'') ''text'' = JStr ''nice''"
    and n: "get (get (get r ''info'') ''quotedUser'') ''name'' = JStr ''Alice''"
    and s: "get (get (get r ''info'') ''quotedUser'') ''screen_name'' = JStr ''alice''"
    by (auto simp: v1 v4 v5)
  from phoenix_quote_split[OF h2n h3n h4 h5, of native_env, unfolded v0] h1 h6n obtain r' where
    r': "convertPhoenixFormat native_env ?n = Inr r'"
    and t': "get r' ''title'' = JStr ''hello''"
    and b': "get r' ''body'' = JStr []"
    and q': "get (get r' ''info'') ''quotedUser'' = JUndefined"
    by (auto simp: v1)
  from h1 h2 h3 h2n h3n h4 h5 h6 h6n t b x n s t' b' q' show ?thesis unfolding r r' by simp
qed

end
